theory Spec2Isabelle
  imports Main "HOL-Library.Word"
begin

unbundle bit_operations_syntax

section \<open>Data of FAT.c\<close>

text \<open>
  The embedding follows \<^verbatim>\<open>src/FAT.c\<close> under the usual LP64 little-endian C
  implementation: \<^verbatim>\<open>unsigned char\<close> is 8 bits, \<^verbatim>\<open>unsigned short\<close> 16,
  \<^verbatim>\<open>int\<close> and \<^verbatim>\<open>unsigned int\<close> 32, \<^verbatim>\<open>unsigned long long\<close> and
  \<^verbatim>\<open>off_t\<close> 64. Machine integers are words, so every product and sum wraps as the C
  expression does. Whether plain \<^verbatim>\<open>char\<close> is signed is left to the platform record
  below, because the source compares \<^verbatim>\<open>char\<close> values with \<^verbatim>\<open>0xE5\<close>.
\<close>

type_synonym byte = "8 word"

text \<open>\<^verbatim>\<open>typedef struct { ... } BootSectorInfo;\<close> (lines 14-21).\<close>

record BootSectorInfo =
  bytesPerSector :: "16 word"
  sectorsPerCluster :: "8 word"
  rootCluster :: "32 word"
  totalClusters :: "32 word"
  sectorsPerFAT :: "32 word"
  sizeOfImage :: "64 word"

text \<open>
  \<^verbatim>\<open>typedef struct { ... } DirectoryContext;\<close> (lines 23-27). The two character arrays
  hold C strings; the model keeps the bytes before the terminating NUL.
\<close>

record DirectoryContext =
  currentCluster :: "32 word"
  path :: "byte list"
  imageName :: "byte list"

text \<open>
  \<^verbatim>\<open>typedef struct { ... } DirEntry;\<close> (lines 31-38): 11 name bytes, the attribute
  byte, 20 reserved bytes, then two 16-bit and one 32-bit field. The members need no
  padding, so the structure occupies 11 + 1 + 20 + 2 + 2 + 4 = 40 bytes, while the macro
  \<^verbatim>\<open>DIR_ENTRY_SIZE\<close> is 32.
\<close>

definition DIR_ENTRY_SIZE :: nat where
  "DIR_ENTRY_SIZE = 32"

definition ATTR_DIRECTORY :: byte where
  "ATTR_DIRECTORY = 0x10"

definition sizeof_DirEntry :: nat where
  "sizeof_DirEntry = 40"

section \<open>The image file behind a descriptor\<close>

text \<open>
  The descriptor refers to a regular file: its bytes, the access mode it was opened with,
  the file offset, and the largest offset the file system that holds the file admits.
  \<^verbatim>\<open>lseek(fd, off, SEEK_SET)\<close> fails (\<^verbatim>\<open>EINVAL\<close>) for a negative offset and
  for an offset beyond that maximum, and then leaves the file offset where it was;
  \<^verbatim>\<open>read\<close> fails on a descriptor that is not open for reading and otherwise
  delivers the bytes that exist from the current offset on (none at or past the end of
  the file), leaving the rest of the buffer as it was; \<^verbatim>\<open>write\<close> fails on a descriptor
  that is not open for writing and (\<^verbatim>\<open>EFBIG\<close>) at an offset that has reached the
  maximum, and otherwise stores the bytes at the current offset, as many as fit below the
  maximum, filling a gap behind the old end of the file with zero bytes.
\<close>

datatype open_mode = O_RDONLY | O_WRONLY | O_RDWR

record open_file =
  f_bytes :: "byte list"
  f_flags :: open_mode
  f_pos :: nat
  f_maxbytes :: int

definition sys_lseek :: "open_file \<Rightarrow> int \<Rightarrow> int \<times> open_file" where
  "sys_lseek fd off =
     (if off < 0 \<or> f_maxbytes fd < off then (- 1, fd) else (off, fd\<lparr>f_pos := nat off\<rparr>))"

definition sys_read :: "open_file \<Rightarrow> byte list \<Rightarrow> nat \<Rightarrow> int \<times> byte list \<times> open_file" where
  "sys_read fd buf n =
     (if f_flags fd = O_WRONLY then (- 1, buf, fd)
      else let got = take n (drop (f_pos fd) (f_bytes fd))
           in (int (length got), got @ drop (length got) buf,
               fd\<lparr>f_pos := f_pos fd + length got\<rparr>))"

definition file_store :: "byte list \<Rightarrow> nat \<Rightarrow> byte list \<Rightarrow> byte list" where
  "file_store old p data =
     take p (old @ replicate (p - length old) 0) @ data @ drop (p + length data) old"

definition sys_write :: "open_file \<Rightarrow> byte list \<Rightarrow> nat \<Rightarrow> int \<times> open_file" where
  "sys_write fd buf n =
     (if f_flags fd = O_RDONLY \<or> f_maxbytes fd \<le> int (f_pos fd) then (- 1, fd)
      else let data = take (nat (min (int n) (f_maxbytes fd - int (f_pos fd)))) buf
           in (int (length data),
               fd\<lparr>f_bytes := file_store (f_bytes fd) (f_pos fd) data,
                  f_pos := f_pos fd + length data\<rparr>))"

section \<open>readCluster\<close>

text \<open>
  Lines 40-56. \<^verbatim>\<open>(clusterNum - 2) * bsi->sectorsPerCluster + bsi->rootCluster\<close> is
  computed in \<^verbatim>\<open>unsigned int\<close> and only then widened to \<^verbatim>\<open>unsigned long long\<close>;
  the product with \<^verbatim>\<open>bytesPerSector\<close> is computed in 64 bits and converted to the
  signed \<^verbatim>\<open>off_t\<close>. The byte count \<^verbatim>\<open>bytesPerSector * sectorsPerCluster\<close> is an
  \<^verbatim>\<open>int\<close> product below \<open>2\<^sup>2\<^sup>4\<close>.
\<close>

definition readCluster_sector :: "BootSectorInfo \<Rightarrow> 32 word \<Rightarrow> 64 word" where
  "readCluster_sector bsi clusterNum =
     ucast ((clusterNum - 2) * ucast (sectorsPerCluster bsi) + rootCluster bsi)"

definition readCluster_offset :: "BootSectorInfo \<Rightarrow> 32 word \<Rightarrow> int" where
  "readCluster_offset bsi clusterNum =
     sint (readCluster_sector bsi clusterNum * ucast (bytesPerSector bsi))"

definition cluster_bytes :: "BootSectorInfo \<Rightarrow> nat" where
  "cluster_bytes bsi = unat (bytesPerSector bsi) * unat (sectorsPerCluster bsi)"

definition readCluster ::
  "open_file \<Rightarrow> 32 word \<Rightarrow> byte list \<Rightarrow> BootSectorInfo \<Rightarrow> bool \<times> byte list \<times> open_file" where
  "readCluster fd clusterNum buffer bsi =
     (case sys_lseek fd (readCluster_offset bsi clusterNum) of (r, fd1) \<Rightarrow>
        if r < 0 then (False, buffer, fd1)
        else case sys_read fd1 buffer (cluster_bytes bsi) of (n, buffer', fd2) \<Rightarrow>
          if n < 0 then (False, buffer', fd2) else (True, buffer', fd2))"

section \<open>Platform and C library\<close>

text \<open>
  What the C implementation decides and the source leaves open: whether plain
  \<^verbatim>\<open>char\<close> is signed, and what \<^verbatim>\<open>snprintf(path, 512, "%s/%s", path, dirName)\<close>
  leaves in \<^verbatim>\<open>path\<close> (source and destination overlap there, which C does not define;
  the function gives the resulting string from the old path and the name).
\<close>

record platform =
  char_signed :: bool
  snprintf_overlap :: "byte list \<Rightarrow> byte list \<Rightarrow> byte list"

text \<open>The value of a \<^verbatim>\<open>char\<close> object holding the byte, after promotion to \<^verbatim>\<open>int\<close>.\<close>

definition char_value :: "platform \<Rightarrow> byte \<Rightarrow> int" where
  "char_value pf b = (if char_signed pf then sint b else uint b)"

text \<open>
  \<^verbatim>\<open>malloc\<close> either fails or returns a block whose initial contents are indeterminate:
  the allocator gives, for the requested size, nothing or the byte found at each index.
\<close>

type_synonym allocator = "nat \<Rightarrow> (nat \<Rightarrow> byte) option"

definition malloc :: "allocator \<Rightarrow> nat \<Rightarrow> byte list option" where
  "malloc al n = (case al n of None \<Rightarrow> None | Some init \<Rightarrow> Some (map init [0..<n]))"

text \<open>
  A C string is the bytes before the first NUL. \<^const>\<open>True\<close> from the two comparisons
  stands for the result 0 of \<^verbatim>\<open>strcmp\<close> and \<^verbatim>\<open>strncmp\<close>; \<open>strncpy\<close> gives the \<open>n\<close>
  bytes that \<^verbatim>\<open>strncpy(dest, src, n)\<close> stores, padded with NUL bytes.
\<close>

definition c_str :: "byte list \<Rightarrow> byte list" where
  "c_str bs = takeWhile (\<lambda>b. b \<noteq> 0) bs"

definition strcmp_eq :: "byte list \<Rightarrow> byte list \<Rightarrow> bool" where
  "strcmp_eq a b = (c_str a = c_str b)"

definition strncmp_eq :: "byte list \<Rightarrow> byte list \<Rightarrow> nat \<Rightarrow> bool" where
  "strncmp_eq a b n = (take n (c_str a) = take n (c_str b))"

definition strncpy :: "byte list \<Rightarrow> nat \<Rightarrow> byte list" where
  "strncpy src n = take n (c_str src @ replicate n 0)"

definition bytes_of :: "string \<Rightarrow> byte list" where
  "bytes_of s = map of_char s"

text \<open>
  What the program prints on standard output: a line, the prompt \<^verbatim>\<open>"[%s%s]/> "\<close> with
  its two strings, or the six lines of \<^verbatim>\<open>printBootSectorInfo\<close> with the record they
  show. Messages of \<^verbatim>\<open>perror\<close> go to standard error and are not recorded.
\<close>

datatype printed = Line "byte list" | Prompt "byte list" "byte list" | BootInfo BootSectorInfo

text \<open>Behaviour that C leaves undefined and that the source can reach.\<close>

datatype fault = OutOfBoundsRead | DivisionByZero

section \<open>Directory entries in a cluster buffer\<close>

text \<open>
  \<^verbatim>\<open>DirEntry* entry = (DirEntry*) buffer\<close>: record \<open>i\<close> lies at byte
  \<open>sizeof(DirEntry) * i\<close> of the buffer, its members at offsets 0 (name), 11 (attr),
  32 (firstClusterHigh), 34 (firstClusterLow) and 36 (fileSize), the integers with the
  low byte first.
\<close>

definition entry_at :: "nat \<Rightarrow> nat" where
  "entry_at i = sizeof_DirEntry * i"

definition le16 :: "byte \<Rightarrow> byte \<Rightarrow> 16 word" where
  "le16 b0 b1 = push_bit 8 (ucast b1) OR ucast b0"

definition le32 :: "byte \<Rightarrow> byte \<Rightarrow> byte \<Rightarrow> byte \<Rightarrow> 32 word" where
  "le32 b0 b1 b2 b3 =
     push_bit 24 (ucast b3) OR push_bit 16 (ucast b2) OR push_bit 8 (ucast b1) OR ucast b0"

definition bytes16 :: "16 word \<Rightarrow> byte list" where
  "bytes16 w = [ucast w, ucast (drop_bit 8 w)]"

definition bytes32 :: "32 word \<Rightarrow> byte list" where
  "bytes32 w = [ucast w, ucast (drop_bit 8 w), ucast (drop_bit 16 w), ucast (drop_bit 24 w)]"

definition entry_name :: "byte list \<Rightarrow> nat \<Rightarrow> byte list" where
  "entry_name buffer i = take 11 (drop (entry_at i) buffer)"

definition entry_attr :: "byte list \<Rightarrow> nat \<Rightarrow> byte" where
  "entry_attr buffer i = buffer ! (entry_at i + 11)"

definition entry_firstClusterHigh :: "byte list \<Rightarrow> nat \<Rightarrow> 16 word" where
  "entry_firstClusterHigh buffer i =
     le16 (buffer ! (entry_at i + 32)) (buffer ! (entry_at i + 33))"

definition entry_firstClusterLow :: "byte list \<Rightarrow> nat \<Rightarrow> 16 word" where
  "entry_firstClusterLow buffer i =
     le16 (buffer ! (entry_at i + 34)) (buffer ! (entry_at i + 35))"



text \<open>Storing bytes into the buffer from a position on (the stores of the source are in range).\<close>

definition store :: "byte list \<Rightarrow> nat \<Rightarrow> byte list \<Rightarrow> byte list" where
  "store buffer at bs = take at buffer @ bs @ drop (at + length bs) buffer"

section \<open>changeDirectory\<close>

text \<open>
  Lines 58-96. The loop runs over \<open>entriesCount = bytes / sizeof(DirEntry)\<close> records, so
  every access stays inside the buffer. The last argument of the loop function counts the
  iterations that remain. \<^verbatim>\<open>(entry->firstClusterHigh << 16) | entry->firstClusterLow\<close>
  is taken as the 32-bit value with these halves.
\<close>

fun changeDirectory_loop ::
  "platform \<Rightarrow> byte list \<Rightarrow> byte list \<Rightarrow> DirectoryContext \<Rightarrow> bool \<Rightarrow> nat \<Rightarrow> nat
     \<Rightarrow> DirectoryContext \<times> bool" where
  "changeDirectory_loop pf dirName buffer context found i 0 = (context, found)"
| "changeDirectory_loop pf dirName buffer context found i (Suc k) =
     (if char_value pf (buffer ! entry_at i) = 0x00 then (context, found)
      else if char_value pf (buffer ! entry_at i) = 0xE5
        then changeDirectory_loop pf dirName buffer context found (i + 1) k
      else if strcmp_eq dirName (bytes_of ''..'')
              \<and> strncmp_eq (entry_name buffer i) (bytes_of ''..         '') 11
        then changeDirectory_loop pf dirName buffer context True (i + 1) k
      else if entry_attr buffer i AND ATTR_DIRECTORY \<noteq> 0
              \<and> strncmp_eq (entry_name buffer i) dirName 11
        then (context\<lparr>currentCluster :=
                 push_bit 16 (ucast (entry_firstClusterHigh buffer i))
                   OR ucast (entry_firstClusterLow buffer i),
               path := snprintf_overlap pf (path context) (c_str dirName)\<rparr>, True)
      else changeDirectory_loop pf dirName buffer context found (i + 1) k)"

definition changeDirectory ::
  "platform \<Rightarrow> allocator \<Rightarrow> open_file \<Rightarrow> byte list \<Rightarrow> DirectoryContext \<Rightarrow> BootSectorInfo
     \<Rightarrow> DirectoryContext \<times> open_file \<times> printed list" where
  "changeDirectory pf al fd dirName context bsi =
     (if strcmp_eq dirName (bytes_of ''.'') then (context, fd, [])
      else case malloc al (cluster_bytes bsi) of
        None \<Rightarrow>
          (context, fd, [Line (bytes_of ''Failed to allocate memory for reading cluster'')])
      | Some buffer0 \<Rightarrow>
          (case readCluster fd (currentCluster context) buffer0 bsi of
            (ok, buffer, fd') \<Rightarrow>
              if \<not> ok then (context, fd', [])
              else case changeDirectory_loop pf dirName buffer context False 0
                          (cluster_bytes bsi div sizeof_DirEntry) of
                (context', found) \<Rightarrow>
                  (context', fd',
                   if found then []
                   else [Line (bytes_of ''Directory not found: '' @ c_str dirName)])))"

section \<open>listDirectory\<close>

text \<open>
  Lines 139-163. The loop runs over \<open>bytes / DIR_ENTRY_SIZE\<close> records of 32 bytes but
  steps by \<open>sizeof(DirEntry)\<close>, so it can leave the buffer: reading
  \<^verbatim>\<open>entry->name[0]\<close> at or behind the end of the block, or printing a name that runs
  across the end, is recorded as a fault and ends the listing (an access is a fault, the
  increment of \<^verbatim>\<open>entry\<close> alone is not).
  \<^verbatim>\<open>printf("%.11s\n", entry->name)\<close> prints the bytes before the first NUL, 11 at most.
\<close>

definition printf_name :: "byte list \<Rightarrow> nat \<Rightarrow> byte list option" where
  "printf_name buffer i =
     (let field = entry_name buffer i
      in if length (c_str field) = length field \<and> length field < 11 then None
         else Some (c_str field))"

fun listDirectory_loop ::
  "platform \<Rightarrow> byte list \<Rightarrow> nat \<Rightarrow> nat \<Rightarrow> printed list \<times> fault option" where
  "listDirectory_loop pf buffer i 0 = ([], None)"
| "listDirectory_loop pf buffer i (Suc k) =
     (if length buffer \<le> entry_at i then ([], Some OutOfBoundsRead)
      else if char_value pf (buffer ! entry_at i) = 0x00 then ([], None)
      else if char_value pf (buffer ! entry_at i) = 0xE5
        then listDirectory_loop pf buffer (i + 1) k
      else case printf_name buffer i of
        None \<Rightarrow> ([], Some OutOfBoundsRead)
      | Some name \<Rightarrow>
          (case listDirectory_loop pf buffer (i + 1) k of
            (out, f) \<Rightarrow> (Line name # out, f)))"

definition listDirectory ::
  "platform \<Rightarrow> allocator \<Rightarrow> open_file \<Rightarrow> DirectoryContext \<Rightarrow> BootSectorInfo
     \<Rightarrow> open_file \<times> printed list \<times> fault option" where
  "listDirectory pf al fd context bsi =
     (case malloc al (cluster_bytes bsi) of
        None \<Rightarrow>
          (fd, [Line (bytes_of ''Failed to allocate memory for reading cluster'')], None)
      | Some buffer0 \<Rightarrow>
          (case readCluster fd (currentCluster context) buffer0 bsi of
            (ok, buffer, fd') \<Rightarrow>
              if \<not> ok then (fd', [], None)
              else case listDirectory_loop pf buffer 0
                          (cluster_bytes bsi div DIR_ENTRY_SIZE) of
                (out, f) \<Rightarrow>
                  (fd', Line (bytes_of ''.'') # Line (bytes_of ''..'') # out, f)))"

section \<open>createDirectory\<close>

text \<open>
  Lines 165-202. The loop runs over \<open>bytes / sizeof(DirEntry)\<close> records and fills the
  first one whose first name byte is \<^verbatim>\<open>0x00\<close> or compares equal to \<^verbatim>\<open>0xE5\<close>
  (\<open>slot_free\<close>, the condition of line 182). The
  offset of the write-back, \<^verbatim>\<open>currentCluster * bytesPerSector * sectorsPerCluster\<close>, is
  a product in \<^verbatim>\<open>unsigned int\<close>; the results of \<^verbatim>\<open>lseek\<close> and \<^verbatim>\<open>write\<close> are
  ignored.
\<close>

definition createDirectory_fill :: "byte list \<Rightarrow> nat \<Rightarrow> byte list \<Rightarrow> DirectoryContext \<Rightarrow> byte list" where
  "createDirectory_fill buffer i dirName context =
     (let b1 = store buffer (entry_at i) (strncpy dirName 11);
          b2 = store b1 (entry_at i + 11) [ATTR_DIRECTORY];
          b3 = store b2 (entry_at i + 34) (bytes16 (ucast (currentCluster context AND 0xFFFF)));
          b4 = store b3 (entry_at i + 32)
                 (bytes16 (ucast (drop_bit 16 (currentCluster context) AND 0xFFFF)))
      in store b4 (entry_at i + 36) (bytes32 0))"

definition slot_free :: "platform \<Rightarrow> byte list \<Rightarrow> nat \<Rightarrow> bool" where
  "slot_free pf buffer i =
     (char_value pf (buffer ! entry_at i) = 0x00 \<or> char_value pf (buffer ! entry_at i) = 0xE5)"

fun createDirectory_loop ::
  "platform \<Rightarrow> byte list \<Rightarrow> DirectoryContext \<Rightarrow> byte list \<Rightarrow> nat \<Rightarrow> nat
     \<Rightarrow> byte list \<times> bool" where
  "createDirectory_loop pf dirName context buffer i 0 = (buffer, False)"
| "createDirectory_loop pf dirName context buffer i (Suc k) =
     (if slot_free pf buffer i
      then (createDirectory_fill buffer i dirName context, True)
      else createDirectory_loop pf dirName context buffer (i + 1) k)"

definition createDirectory_offset :: "DirectoryContext \<Rightarrow> BootSectorInfo \<Rightarrow> int" where
  "createDirectory_offset context bsi =
     uint (currentCluster context * ucast (bytesPerSector bsi) * ucast (sectorsPerCluster bsi))"

definition createDirectory ::
  "platform \<Rightarrow> allocator \<Rightarrow> open_file \<Rightarrow> byte list \<Rightarrow> DirectoryContext \<Rightarrow> BootSectorInfo
     \<Rightarrow> open_file \<times> printed list" where
  "createDirectory pf al fd dirName context bsi =
     (case malloc al (cluster_bytes bsi) of
        None \<Rightarrow>
          (fd, [Line (bytes_of ''Failed to allocate memory for directory cluster'')])
      | Some buffer0 \<Rightarrow>
          (case readCluster fd (currentCluster context) buffer0 bsi of
            (ok, buffer, fd1) \<Rightarrow>
              if \<not> ok then (fd1, [])
              else case createDirectory_loop pf dirName context buffer 0
                          (cluster_bytes bsi div sizeof_DirEntry) of
                (buffer', foundSpace) \<Rightarrow>
                  if \<not> foundSpace
                  then (fd1, [Line (bytes_of
                          ''No space in current directory to create new directory'')])
                  else case sys_lseek fd1 (createDirectory_offset context bsi) of
                    (r, fd2) \<Rightarrow>
                      (case sys_write fd2 buffer' (cluster_bytes bsi) of
                        (w, fd3) \<Rightarrow> (fd3, []))))"

section \<open>printBootSectorInfo\<close>

text \<open>
  Lines 99-137. The argument is the file found under the path, if any. The fields are
  read from the first 512 bytes at offsets 11, 13, 36 and 44, low byte first;
  \<^verbatim>\<open>st.st_size / (info.sectorsPerCluster * info.bytesPerSector)\<close> divides the 64-bit
  file size by an \<^verbatim>\<open>int\<close> product and the quotient is converted to
  \<^verbatim>\<open>unsigned int\<close>. A zero divisor is a fault.
\<close>

definition printBootSectorInfo :: "byte list option \<Rightarrow> printed list \<times> fault option" where
  "printBootSectorInfo file =
     (case file of
        None \<Rightarrow> ([], None)
      | Some img \<Rightarrow>
          if length img < 512 then ([], None)
          else
            let bootSector = take 512 img;
                info = \<lparr>bytesPerSector = le16 (bootSector ! 11) (bootSector ! 12),
                        sectorsPerCluster = bootSector ! 13,
                        rootCluster = le32 (bootSector ! 44) (bootSector ! 45)
                                           (bootSector ! 46) (bootSector ! 47),
                        totalClusters = 0,
                        sectorsPerFAT = le32 (bootSector ! 36) (bootSector ! 37)
                                             (bootSector ! 38) (bootSector ! 39),
                        sizeOfImage = of_nat (length img)\<rparr>;
                d = uint (sectorsPerCluster info) * uint (bytesPerSector info)
            in if d = 0 then ([], Some DivisionByZero)
               else ([BootInfo (info\<lparr>totalClusters := of_int (int (length img) div d)\<rparr>)],
                     None))"

section \<open>main\<close>

text \<open>
  Lines 204-253. What the run of \<^verbatim>\<open>main\<close> meets from outside: the platform, the
  allocator in force while command number \<open>n\<close> runs, the indeterminate contents of
  the local array \<^verbatim>\<open>dirName\<close> that \<^verbatim>\<open>createDirectory\<close> receives when
  \<^verbatim>\<open>sscanf\<close> stores nothing, and the largest file offset of the file system that
  holds the image.
\<close>

record environment =
  env_platform :: platform
  env_malloc :: "nat \<Rightarrow> allocator"
  env_dirName :: "nat \<Rightarrow> byte list"
  env_maxbytes :: int

text \<open>
  The geometry handed to a directory operation, recorded at each call of lines 240 and
  244.
\<close>

datatype call = Call_listDirectory BootSectorInfo | Call_createDirectory BootSectorInfo

record session =
  s_fd :: open_file
  s_context :: DirectoryContext
  s_bsi :: BootSectorInfo
  s_out :: "printed list"
  s_calls :: "call list"
  s_fault :: "fault option"

text \<open>
  \<^verbatim>\<open>sscanf(str, "%255s", dirName)\<close>: white space is skipped, then up to 255 bytes that
  are not white space are stored; nothing is stored when the string ends first.
\<close>

definition is_space :: "byte \<Rightarrow> bool" where
  "is_space b = (b = 0x20 \<or> (0x09 \<le> b \<and> b \<le> 0x0D))"

definition sscanf_s :: "byte list \<Rightarrow> nat \<Rightarrow> byte list option" where
  "sscanf_s str width =
     (let word = takeWhile (\<lambda>b. \<not> is_space b) (dropWhile is_space (c_str str))
      in if word = [] then None else Some (take width word))"

text \<open>
  One command of the loop, lines 233-247, after \<^verbatim>\<open>exit\<close> has been ruled out. The
  \<^verbatim>\<open>cd\<close> branch only scans the name: its call of \<^verbatim>\<open>changeDirectory\<close> is commented
  out. \<^verbatim>\<open>info\<close> opens the image a second time under the same path.
\<close>

definition command_step :: "environment \<Rightarrow> nat \<Rightarrow> session \<Rightarrow> byte list \<Rightarrow> session" where
  "command_step env n s command =
     (if strcmp_eq command (bytes_of ''info'') then
        (case printBootSectorInfo (Some (f_bytes (s_fd s))) of
          (out, f) \<Rightarrow> s\<lparr>s_out := s_out s @ out, s_fault := f\<rparr>)
      else if strncmp_eq command (bytes_of ''cd '') 3 then s
      else if strcmp_eq command (bytes_of ''ls'') then
        (case listDirectory (env_platform env) (env_malloc env n) (s_fd s) (s_context s)
                (s_bsi s) of
          (fd', out, f) \<Rightarrow>
            s\<lparr>s_fd := fd', s_out := s_out s @ out,
              s_calls := s_calls s @ [Call_listDirectory (s_bsi s)], s_fault := f\<rparr>)
      else if strncmp_eq command (bytes_of ''mkdir '') 6 then
        (let dirName = (case sscanf_s (drop 6 (c_str command)) 255 of
                          Some name \<Rightarrow> name
                        | None \<Rightarrow> env_dirName env n)
         in case createDirectory (env_platform env) (env_malloc env n) (s_fd s) dirName
                   (s_context s) (s_bsi s) of
              (fd', out) \<Rightarrow>
                s\<lparr>s_fd := fd', s_out := s_out s @ out,
                  s_calls := s_calls s @ [Call_createDirectory (s_bsi s)]\<rparr>)
      else s\<lparr>s_out := s_out s @ [Line (bytes_of ''Unknown command'')]\<rparr>)"

text \<open>
  The loop of lines 224-248 over the strings that successive calls of \<^verbatim>\<open>fgets\<close>
  deliver; the end of the list is the end of the input. The command is the string up to
  its first newline. A fault ends the run.
\<close>

fun command_loop :: "environment \<Rightarrow> nat \<Rightarrow> session \<Rightarrow> byte list list \<Rightarrow> session" where
  "command_loop env n s [] =
     s\<lparr>s_out := s_out s @ [Prompt (imageName (s_context s)) (path (s_context s))]\<rparr>"
| "command_loop env n s (input # rest) =
     (let s1 = s\<lparr>s_out := s_out s @ [Prompt (imageName (s_context s)) (path (s_context s))]\<rparr>;
          command = takeWhile (\<lambda>b. b \<noteq> 0x0A) (c_str input)
      in if strcmp_eq command (bytes_of ''exit'') then s1
         else let s2 = command_step env n s1 command
              in if s_fault s2 \<noteq> None then s2 else command_loop env (n + 1) s2 rest)"

text \<open>
  \<^verbatim>\<open>main\<close>: \<open>argv\<close> with the program name first, the files by path, and the input.
  \<^verbatim>\<open>BootSectorInfo bsi;\<close> is declared without an initialiser and no statement of
  \<^verbatim>\<open>main\<close> assigns it: its indeterminate value is the parameter \<open>bsi\<close>. The result is
  the exit status, the standard output, and the state at the end of the loop when the
  image could be opened.
\<close>

definition main ::
  "environment \<Rightarrow> BootSectorInfo \<Rightarrow> byte list list \<Rightarrow> (byte list \<Rightarrow> byte list option)
     \<Rightarrow> byte list list \<Rightarrow> int \<times> printed list \<times> session option" where
  "main env bsi argv files stdin =
     (if length argv \<noteq> 2 then (1, [Line (bytes_of ''Usage: ./filesys [FAT32 ISO]'')], None)
      else case files (c_str (argv ! 1)) of
        None \<Rightarrow> (1, [], None)
      | Some img \<Rightarrow>
          let fd = \<lparr>f_bytes = img, f_flags = O_RDONLY, f_pos = 0,
                    f_maxbytes = env_maxbytes env\<rparr>;
              context = \<lparr>currentCluster = 2, path = bytes_of ''/'',
                         imageName = take 255 (c_str (argv ! 1))\<rparr>;
              s = command_loop env 0
                    \<lparr>s_fd = fd, s_context = context, s_bsi = bsi, s_out = [], s_calls = [],
                      s_fault = None\<rparr> stdin
          in (0, s_out s, Some s))"

text \<open>
  The buffer a directory operation works on after \<^const>\<open>readCluster\<close> has filled the
  block \<open>buffer0\<close> that \<^const>\<open>malloc\<close> returned.
\<close>

definition cluster_buffer :: "open_file \<Rightarrow> 32 word \<Rightarrow> BootSectorInfo \<Rightarrow> byte list \<Rightarrow> byte list" where
  "cluster_buffer fd c bsi buffer0 =
     (let got = take (cluster_bytes bsi) (drop (nat (readCluster_offset bsi c)) (f_bytes fd))
      in got @ drop (length got) buffer0)"

text \<open>
  What a run of \<^const>\<open>main\<close> leaves behind: the bytes of the image, the record
  \<^verbatim>\<open>bsi\<close>, and the calls of the directory operations with the geometry each
  received.
\<close>

definition final_image :: "int \<times> printed list \<times> session option \<Rightarrow> byte list option" where
  "final_image r = (case snd (snd r) of None \<Rightarrow> None | Some s \<Rightarrow> Some (f_bytes (s_fd s)))"

definition final_mode :: "int \<times> printed list \<times> session option \<Rightarrow> open_mode option" where
  "final_mode r = (case snd (snd r) of None \<Rightarrow> None | Some s \<Rightarrow> Some (f_flags (s_fd s)))"

definition call_geometry :: "call \<Rightarrow> BootSectorInfo" where
  "call_geometry c = (case c of Call_listDirectory b \<Rightarrow> b | Call_createDirectory b \<Rightarrow> b)"

definition session_calls :: "int \<times> printed list \<times> session option \<Rightarrow> call list" where
  "session_calls r = (case snd (snd r) of None \<Rightarrow> [] | Some s \<Rightarrow> s_calls s)"

definition final_geometry :: "int \<times> printed list \<times> session option \<Rightarrow> BootSectorInfo option" where
  "final_geometry r = (case snd (snd r) of None \<Rightarrow> None | Some s \<Rightarrow> Some (s_bsi s))"

text \<open>
  The invariant of the command loop: the image holds the bytes \<open>img\<close> and is open
  read-only, \<^verbatim>\<open>bsi\<close> holds the value it started with, and every directory operation
  so far received that value.
\<close>

definition session_inv :: "byte list \<Rightarrow> BootSectorInfo \<Rightarrow> session \<Rightarrow> bool" where
  "session_inv img bsi s =
     (f_bytes (s_fd s) = img \<and> f_flags (s_fd s) = O_RDONLY \<and> s_bsi s = bsi
      \<and> map call_geometry (s_calls s) = replicate (length (s_calls s)) bsi)"

section \<open>The cluster translator as the specification words it\<close>

text \<open>
  The volume geometry of the specification has a reserved-sector count and a number of
  FATs, which \<^verbatim>\<open>BootSectorInfo\<close> lacks. The following definitions follow the
  specification's sentences, to be compared with \<^const>\<open>readCluster\<close>.
\<close>

record VolumeGeometry =
  vg_bytesPerSector :: nat
  vg_sectorsPerCluster :: nat
  vg_reservedSectors :: nat
  vg_numberOfFATs :: nat
  vg_sectorsPerFAT :: nat
  vg_rootCluster :: nat
  vg_totalClusters :: nat
  vg_imageSize :: nat

datatype spec_error = InvalidCluster | CyclicChain | FreeInChain | BadInChain

definition spec_dataRegionStart :: "VolumeGeometry \<Rightarrow> nat" where
  "spec_dataRegionStart g =
     (vg_reservedSectors g + vg_numberOfFATs g * vg_sectorsPerFAT g) * vg_bytesPerSector g"

definition spec_clusterToOffset :: "VolumeGeometry \<Rightarrow> nat \<Rightarrow> spec_error + nat" where
  "spec_clusterToOffset g c =
     (if c < 2 \<or> vg_totalClusters g + 2 \<le> c then Inl InvalidCluster
      else Inr (spec_dataRegionStart g
                + (c - 2) * vg_bytesPerSector g * vg_sectorsPerCluster g))"


section \<open>The FAT chain walker and the listing as the specification words them\<close>

text \<open>
  Modelled from the spec: \<^verbatim>\<open>nextCluster\<close> and \<^verbatim>\<open>collectChain\<close> of the FAT Chain
  Walker. The source has no code that reads the File Allocation Table, so both follow the
  specification's sentences. The table is given by the 32-bit entry read at each cluster
  index. An entry is masked to 28 bits; \<open>0\<close> is free, \<open>0x0FFFFFF7\<close> is bad,
  \<open>0x0FFFFFF8\<close> and above end the chain, any other value names the next cluster.
\<close>

datatype fat_entry = Next nat | EndOfChain | Free | Bad

definition nextCluster :: "(nat \<Rightarrow> 32 word) \<Rightarrow> nat \<Rightarrow> fat_entry" where
  "nextCluster fat c =
     (let v = fat c AND 0x0FFFFFFF
      in if v = 0 then Free
         else if v = 0x0FFFFFF7 then Bad
         else if 0x0FFFFFF8 \<le> v then EndOfChain
         else Next (unat v))"

text \<open>
  Modelled from the spec: \<^verbatim>\<open>collectChain\<close> keeps the clusters it has yielded, fails
  with \<open>CyclicChain\<close> when the cluster it reaches is one of them, with \<open>InvalidCluster\<close>
  when it lies outside \<open>[2, totalClusters + 2)\<close>, and follows \<^const>\<open>nextCluster\<close> until
  the end of the chain.
\<close>

function collectChain_from ::
  "nat \<Rightarrow> (nat \<Rightarrow> 32 word) \<Rightarrow> nat list \<Rightarrow> nat \<Rightarrow> spec_error + nat list" where
  "collectChain_from tot fat visited c =
     (if c \<in> set visited then Inl CyclicChain
      else if c < 2 \<or> tot + 2 \<le> c then Inl InvalidCluster
      else case nextCluster fat c of
             Next d \<Rightarrow> collectChain_from tot fat (visited @ [c]) d
           | EndOfChain \<Rightarrow> Inr (visited @ [c])
           | Free \<Rightarrow> Inl FreeInChain
           | Bad \<Rightarrow> Inl BadInChain)"
  by pat_completeness auto
termination
proof (relation "measure (\<lambda>(tot :: nat, fat :: nat \<Rightarrow> 32 word, visited :: nat list, c :: nat).
                   card ({2..<tot + 2} - set visited))", goal_cases)
  case 1
  show ?case by simp
next
  case (2 tot fat visited c d)
  have "c \<in> {2..<tot + 2} - set visited" using 2 by auto
  moreover have "{2..<tot + 2} - set (visited @ [c]) = ({2..<tot + 2} - set visited) - {c}"
    by auto
  ultimately have "card ({2..<tot + 2} - set (visited @ [c])) < card ({2..<tot + 2} - set visited)"
    by (simp only: card_Diff1_less finite_Diff finite_atLeastLessThan)
  then show ?case by (simp only: in_measure prod.case)
qed

definition collectChain :: "nat \<Rightarrow> (nat \<Rightarrow> 32 word) \<Rightarrow> nat \<Rightarrow> spec_error + nat list" where
  "collectChain tot fat startCluster = collectChain_from tot fat [] startCluster"

text \<open>
  A chain of the table: each cluster's entry names the next one and the last one's entry
  ends the chain. A walk only needs the links.
\<close>

fun fat_chain :: "(nat \<Rightarrow> 32 word) \<Rightarrow> nat list \<Rightarrow> bool" where
  "fat_chain fat [] = False"
| "fat_chain fat [c] = (nextCluster fat c = EndOfChain)"
| "fat_chain fat (c # d # cs) = (nextCluster fat c = Next d \<and> fat_chain fat (d # cs))"

fun fat_walk :: "(nat \<Rightarrow> 32 word) \<Rightarrow> nat list \<Rightarrow> bool" where
  "fat_walk fat [] = True"
| "fat_walk fat [c] = True"
| "fat_walk fat (c # d # cs) = (nextCluster fat c = Next d \<and> fat_walk fat (d # cs))"

definition clusters_valid :: "nat \<Rightarrow> nat list \<Rightarrow> bool" where
  "clusters_valid tot cs = list_all (\<lambda>c. 2 \<le> c \<and> c < tot + 2) cs"



text \<open>
  The total-clusters field of the specification's Geometry Parser: the clusters of the
  whole image less those taken by the reserved sectors and the FAT copies.
\<close>

definition spec_totalClusters :: "VolumeGeometry \<Rightarrow> nat" where
  "spec_totalClusters g =
     vg_imageSize g div (vg_bytesPerSector g * vg_sectorsPerCluster g)
     - (vg_reservedSectors g + vg_numberOfFATs g * vg_sectorsPerFAT g)
         div vg_sectorsPerCluster g"

section \<open>Example volumes\<close>

text \<open>
  A 100-cluster image with 512-byte sectors, one sector per cluster, 32 reserved sectors
  and two FATs of 8 sectors; the root directory is cluster 2.
\<close>

definition bsi_small :: BootSectorInfo where
  "bsi_small = \<lparr>bytesPerSector = 512, sectorsPerCluster = 1, rootCluster = 2,
     totalClusters = 100, sectorsPerFAT = 8, sizeOfImage = 51200\<rparr>"

definition vg_small :: VolumeGeometry where
  "vg_small = \<lparr>vg_bytesPerSector = 512, vg_sectorsPerCluster = 1, vg_reservedSectors = 32,
     vg_numberOfFATs = 2, vg_sectorsPerFAT = 8, vg_rootCluster = 2, vg_totalClusters = 100,
     vg_imageSize = 51200\<rparr>"

text \<open>
  The image of that volume: a boot sector with 512 bytes per sector (offset 11), one
  sector per cluster (13), 32 reserved sectors (14), two FATs (16) of 8 sectors (36) and
  root cluster 2 (44), followed by zero bytes up to 51200 bytes.
\<close>

definition boot_small :: "byte list" where
  "boot_small = replicate 11 0 @ [0x00, 0x02, 0x01, 0x20, 0x00, 0x02] @ replicate 19 0
      @ [8, 0, 0, 0] @ replicate 4 0 @ [2, 0, 0, 0] @ replicate 464 0"

definition image_small :: "byte list" where
  "image_small = boot_small @ replicate 50688 0"

definition fd_zero :: open_file where
  "fd_zero = \<lparr>f_bytes = replicate 51200 0, f_flags = O_RDONLY, f_pos = 0,
     f_maxbytes = 0x7FFFFFFFFFFFFFFF\<rparr>"

text \<open>
  An image of 256 zero bytes kept on a file system whose file offsets end at
  \<open>2\<^sup>3\<^sup>2 - 1\<close>, as on a FAT volume.
\<close>

definition fd_vfat :: open_file where
  "fd_vfat = \<lparr>f_bytes = replicate 256 0, f_flags = O_RDONLY, f_pos = 0,
     f_maxbytes = 0xFFFFFFFF\<rparr>"

text \<open>
  A geometry of the kind a two-terabyte image gives: 512-byte sectors, 128 sectors per
  cluster, \<open>2\<^sup>2\<^sup>5 + 1\<close> clusters.
\<close>

definition bsi_huge :: BootSectorInfo where
  "bsi_huge = \<lparr>bytesPerSector = 512, sectorsPerCluster = 128, rootCluster = 2,
     totalClusters = 33554433, sectorsPerFAT = 262145, sizeOfImage = 2199023321088\<rparr>"

text \<open>
  Two platforms, with unsigned and with signed plain \<^verbatim>\<open>char\<close>, and an allocator that
  never fails and hands out zeroed blocks.
\<close>

definition platform_unsigned :: platform where
  "platform_unsigned = \<lparr>char_signed = False,
     snprintf_overlap = (\<lambda>p d. take 511 (p @ [0x2F] @ d))\<rparr>"

definition platform_signed :: platform where
  "platform_signed = \<lparr>char_signed = True,
     snprintf_overlap = (\<lambda>p d. take 511 (p @ [0x2F] @ d))\<rparr>"

definition alloc_zero :: allocator where
  "alloc_zero = (\<lambda>n. Some (\<lambda>i. 0))"






definition ctx_root :: DirectoryContext where
  "ctx_root = \<lparr>currentCluster = 2, path = bytes_of ''/'', imageName = bytes_of ''img''\<rparr>"

text \<open>
  A four-cluster image of zero bytes with 64-byte sectors, opened for reading and writing,
  and a current directory in cluster 3.
\<close>

definition bsi64 :: BootSectorInfo where
  "bsi64 = \<lparr>bytesPerSector = 64, sectorsPerCluster = 1, rootCluster = 2,
     totalClusters = 4, sectorsPerFAT = 1, sizeOfImage = 256\<rparr>"



text \<open>
  A five-cluster image with 128-byte sectors whose cluster 3 is a subdirectory of the
  directory in cluster 4: it holds the records \<open>.\<close> (first cluster 3) and \<open>..\<close>
  (first cluster 4), space-padded, once laid out as \<^verbatim>\<open>DirEntry\<close> has its members
  (40 bytes) and once as 32-byte records with the first-cluster halves at offsets 20 and
  26.
\<close>

definition bsi128 :: BootSectorInfo where
  "bsi128 = \<lparr>bytesPerSector = 128, sectorsPerCluster = 1, rootCluster = 2,
     totalClusters = 5, sectorsPerFAT = 1, sizeOfImage = 640\<rparr>"

definition record40 :: "string \<Rightarrow> byte \<Rightarrow> 32 word \<Rightarrow> byte list" where
  "record40 name attr cl =
     bytes_of name @ [attr] @ replicate 20 0 @ bytes16 (ucast (drop_bit 16 cl))
       @ bytes16 (ucast cl) @ bytes32 0"

definition record32 :: "string \<Rightarrow> byte \<Rightarrow> 32 word \<Rightarrow> byte list" where
  "record32 name attr cl =
     bytes_of name @ [attr] @ replicate 8 0 @ bytes16 (ucast (drop_bit 16 cl))
       @ replicate 4 0 @ bytes16 (ucast cl) @ bytes32 0"

definition fd_sub40 :: open_file where
  "fd_sub40 = \<lparr>f_bytes = replicate 384 0 @ record40 ''.          '' 0x10 3
                   @ record40 ''..         '' 0x10 4 @ replicate 176 0,
               f_flags = O_RDONLY, f_pos = 0,
     f_maxbytes = 0x7FFFFFFFFFFFFFFF\<rparr>"

definition fd_sub32 :: open_file where
  "fd_sub32 = \<lparr>f_bytes = replicate 384 0 @ record32 ''.          '' 0x10 3
                   @ record32 ''..         '' 0x10 4 @ replicate 192 0,
               f_flags = O_RDONLY, f_pos = 0,
     f_maxbytes = 0x7FFFFFFFFFFFFFFF\<rparr>"

definition ctx_three :: DirectoryContext where
  "ctx_three = \<lparr>currentCluster = 3, path = bytes_of ''/SUB'', imageName = bytes_of ''img''\<rparr>"



text \<open>
  An environment with the unsigned platform and the zeroing allocator, and a file system
  that holds one image of 256 zero bytes under the name \<open>img\<close> and admits file
  offsets up to \<open>2\<^sup>6\<^sup>3 - 1\<close>, as do the descriptors of the other examples.
\<close>

definition env_zero :: environment where
  "env_zero = \<lparr>env_platform = platform_unsigned, env_malloc = (\<lambda>n. alloc_zero),
     env_dirName = (\<lambda>n. []), env_maxbytes = 0x7FFFFFFFFFFFFFFF\<rparr>"

definition files_img :: "byte list \<Rightarrow> byte list option" where
  "files_img p = (if p = bytes_of ''img'' then Some (replicate 256 0) else None)"

text \<open>
  A three-cluster image with 256-byte sectors, opened for reading and writing. Its root
  directory, cluster 2, holds the records, laid out as \<^verbatim>\<open>DirEntry\<close> has its
  members, of a file, of a deleted file (first name byte \<^verbatim>\<open>0xE5\<close>) and of a
  subdirectory, then a record of zero bytes, and behind that the record of another file.
\<close>

definition bsi256 :: BootSectorInfo where
  "bsi256 = \<lparr>bytesPerSector = 256, sectorsPerCluster = 1, rootCluster = 2,
     totalClusters = 3, sectorsPerFAT = 1, sizeOfImage = 768\<rparr>"

definition deleted40 :: "string \<Rightarrow> byte list" where
  "deleted40 name = [0xE5] @ drop 1 (record40 name 0x20 0)"

definition fd_dir :: open_file where
  "fd_dir = \<lparr>f_bytes = replicate 512 0 @ record40 ''A       TXT'' 0x20 0
       @ deleted40 ''OLD     TXT'' @ record40 ''SUB        '' 0x10 5 @ replicate 40 0
       @ record40 ''Z       TXT'' 0x20 0 @ replicate 56 0,
     f_flags = O_RDWR, f_pos = 0, f_maxbytes = 0x7FFFFFFFFFFFFFFF\<rparr>"

text \<open>
  Two tables over four clusters: the chain 2, 3, 4, and the cycle 2, 3, 2.
\<close>

definition fat_three :: "nat \<Rightarrow> 32 word" where
  "fat_three c = (if c = 2 then 3 else if c = 3 then 4 else if c = 4 then 0x0FFFFFFF else 0)"

definition fat_loop :: "nat \<Rightarrow> 32 word" where
  "fat_loop c = (if c = 2 then 3 else if c = 3 then 2 else 0)"

text \<open>
  The cluster numbers the specification calls valid: \<open>2 \<le> c < totalClusters + 2\<close>,
  read as numbers (the sum is not wrapped).
\<close>

definition valid_cluster :: "BootSectorInfo \<Rightarrow> 32 word \<Rightarrow> bool" where
  "valid_cluster bsi c = (2 \<le> unat c \<and> unat c < unat (totalClusters bsi) + 2)"

section \<open>Arithmetic of the cluster offset\<close>

lemma unat_ucast_up:
  fixes w :: "'a::len word"
  assumes "LENGTH('a) \<le> LENGTH('b::len)"
  shows "unat (ucast w :: 'b word) = unat w"
proof -
  have "unat w < 2 ^ LENGTH('a)" by (rule unsigned_less)
  also have "(2::nat) ^ LENGTH('a) \<le> 2 ^ LENGTH('b)"
    using assms by (simp add: power_increasing)
  finally have "take_bit LENGTH('b) (unat w) = unat w"
    by (rule take_bit_nat_eq_self)
  then show ?thesis by (simp add: unsigned_ucast_eq)
qed

lemma unat_ucast_8_32: "unat (ucast (w :: 8 word) :: 32 word) = unat w"
  by (rule unat_ucast_up) simp

lemma unat_ucast_16_64: "unat (ucast (w :: 16 word) :: 64 word) = unat w"
  by (rule unat_ucast_up) simp

lemma unat_ucast_32_64: "unat (ucast (w :: 32 word) :: 64 word) = unat w"
  by (rule unat_ucast_up) simp

lemma sint_64_small:
  fixes w :: "64 word"
  assumes "unat w < 2 ^ 63"
  shows "sint w = int (unat w)"
proof -
  have "int (unat w) < int (2 ^ 63)" using assms by (simp only: of_nat_less_iff)
  then have hi: "uint w < 2 ^ 63" by simp
  have lo: "- (2 ^ 63) \<le> uint w"
    by (rule order_trans [of _ 0]) simp_all
  have "signed_take_bit 63 (uint w) = uint w"
    using lo hi by (rule signed_take_bit_int_eq_self)
  then show ?thesis by (simp add: sint_uint)
qed

lemma readCluster_sector_unat:
  "unat (readCluster_sector bsi c) =
     (unat (c - 2) * unat (sectorsPerCluster bsi) + unat (rootCluster bsi)) mod 2 ^ 32"
  by (simp add: readCluster_sector_def unat_ucast_32_64 unat_ucast_8_32 unat_word_ariths
      mod_simps)

lemma readCluster_offset_unat:
  "readCluster_offset bsi c =
     int (unat (readCluster_sector bsi c) * unat (bytesPerSector bsi))"
proof -
  let ?s = "readCluster_sector bsi c" and ?b = "bytesPerSector bsi"
  have s: "unat ?s < 2 ^ 32" by (simp add: readCluster_sector_unat)
  have b: "unat ?b < 2 ^ 16" using unsigned_less [of ?b] by simp
  have "unat ?s * unat ?b < 2 ^ 32 * 2 ^ 16"
    using s b by (meson mult_strict_mono' zero_le)
  then have lt: "unat ?s * unat ?b < 2 ^ 48" by simp
  have u: "unat (?s * (ucast ?b :: 64 word)) = unat ?s * unat ?b"
    using lt by (simp add: unat_word_ariths unat_ucast_16_64)
  have "unat (?s * (ucast ?b :: 64 word)) < 2 ^ 63"
    using lt u by simp
  then show ?thesis
    unfolding readCluster_offset_def by (simp only: sint_64_small u)
qed

lemma readCluster_offset_nonneg: "0 \<le> readCluster_offset bsi c"
  by (simp add: readCluster_offset_unat)

lemma readCluster_offset_nowrap:
  assumes "unat (c - 2) * unat (sectorsPerCluster bsi) + unat (rootCluster bsi) < 2 ^ 32"
  shows "readCluster_offset bsi c =
           int ((unat (c - 2) * unat (sectorsPerCluster bsi) + unat (rootCluster bsi))
                * unat (bytesPerSector bsi))"
  using assms by (simp add: readCluster_offset_unat readCluster_sector_unat)

lemma readCluster_offset_first:
  "readCluster_offset bsi 2 = int (unat (rootCluster bsi) * unat (bytesPerSector bsi))"
proof -
  have "unat (rootCluster bsi) < 2 ^ 32" using unsigned_less [of "rootCluster bsi"] by simp
  then show ?thesis by (simp add: readCluster_offset_unat readCluster_sector_unat)
qed

lemma readCluster_readable:
  assumes "f_flags fd \<noteq> O_WRONLY" and "readCluster_offset bsi c \<le> f_maxbytes fd"
  shows "readCluster fd c buf bsi =
           (let off = nat (readCluster_offset bsi c);
                got = take (cluster_bytes bsi) (drop off (f_bytes fd))
            in (True, got @ drop (length got) buf, fd\<lparr>f_pos := off + length got\<rparr>))"
  using assms readCluster_offset_nonneg [of bsi c]
  by (simp add: readCluster_def sys_lseek_def sys_read_def Let_def)

section \<open>Claims about readCluster\<close>

lemma readCluster_outcome:
  "readCluster fd c buf bsi =
     (if f_maxbytes fd < readCluster_offset bsi c then (False, buf, fd)
      else if f_flags fd = O_WRONLY
        then (False, buf, fd\<lparr>f_pos := nat (readCluster_offset bsi c)\<rparr>)
      else let off = nat (readCluster_offset bsi c);
               got = take (cluster_bytes bsi) (drop off (f_bytes fd))
           in (True, got @ drop (length got) buf, fd\<lparr>f_pos := off + length got\<rparr>))"
  using readCluster_offset_nonneg [of bsi c]
  by (simp add: readCluster_def sys_lseek_def sys_read_def Let_def)

lemma readCluster_totalClusters:
  "readCluster fd c buf (bsi\<lparr>totalClusters := t\<rparr>) = readCluster fd c buf bsi"
proof -
  have o: "readCluster_offset (bsi\<lparr>totalClusters := t\<rparr>) c = readCluster_offset bsi c"
    by (simp add: readCluster_offset_def readCluster_sector_def)
  have n: "cluster_bytes (bsi\<lparr>totalClusters := t\<rparr>) = cluster_bytes bsi"
    by (simp add: cluster_bytes_def)
  show ?thesis unfolding readCluster_def o n by (rule refl)
qed

lemma readCluster_offset_base:
  assumes c: "2 \<le> c"
    and fit: "(unat c - 2) * unat (sectorsPerCluster bsi) + unat (rootCluster bsi) < 2 ^ 32"
  shows "readCluster_offset bsi c =
           int (unat (rootCluster bsi) * unat (bytesPerSector bsi)
                + (unat c - 2) * (unat (bytesPerSector bsi) * unat (sectorsPerCluster bsi)))"
proof -
  have u: "unat (c - 2) = unat c - 2" using c by (simp add: unat_sub)
  have "readCluster_offset bsi c =
          int ((unat (c - 2) * unat (sectorsPerCluster bsi) + unat (rootCluster bsi))
               * unat (bytesPerSector bsi))"
    using fit u by (intro readCluster_offset_nowrap) simp
  then show ?thesis using u by (simp add: algebra_simps)
qed

text \<open>
  C1, as the code has it. \<^const>\<open>readCluster\<close> makes no range check on the cluster number
  and has no \<open>InvalidCluster\<close> failure; its result does not depend on \<open>totalClusters\<close>.
  For every cluster number it seeks to \<^const>\<open>readCluster_offset\<close> and reads
  \<open>bytesPerSector * sectorsPerCluster\<close> bytes from there, and it fails only when the seek
  fails (the offset lies beyond the largest offset of the file system) or the read fails
  (the descriptor is not open for reading). For a cluster number \<open>c \<ge> 2\<close> whose sector
  number \<open>(c - 2) * sectorsPerCluster + rootCluster\<close> does not overflow 32 bits, the
  offset is \<open>rootCluster * bytesPerSector + (c - 2) * bytesPerSector * sectorsPerCluster\<close>:
  the data region is taken to start \<open>rootCluster\<close> sectors into the image.
\<close>

theorem readCluster_access:
  "readCluster fd c buf bsi =
     (if f_maxbytes fd < readCluster_offset bsi c then (False, buf, fd)
      else if f_flags fd = O_WRONLY
        then (False, buf, fd\<lparr>f_pos := nat (readCluster_offset bsi c)\<rparr>)
      else let off = nat (readCluster_offset bsi c);
               got = take (cluster_bytes bsi) (drop off (f_bytes fd))
           in (True, got @ drop (length got) buf, fd\<lparr>f_pos := off + length got\<rparr>))
   \<and> readCluster fd c buf (bsi\<lparr>totalClusters := t\<rparr>) = readCluster fd c buf bsi
   \<and> (2 \<le> c \<and> (unat c - 2) * unat (sectorsPerCluster bsi) + unat (rootCluster bsi) < 2 ^ 32
        \<longrightarrow> readCluster_offset bsi c =
              int (unat (rootCluster bsi) * unat (bytesPerSector bsi)
                   + (unat c - 2) * (unat (bytesPerSector bsi) * unat (sectorsPerCluster bsi))))"
  using readCluster_outcome [of fd c buf bsi] readCluster_totalClusters [where fd = fd and c = c and buf = buf and bsi = bsi and t = t]
    readCluster_offset_base [where c = c and bsi = bsi]
  by blast

theorem readCluster_access_witness:
  "(2 :: 32 word) \<le> 3
   \<and> (unat (3 :: 32 word) - 2) * unat (sectorsPerCluster bsi_small)
        + unat (rootCluster bsi_small) < 2 ^ 32
   \<and> readCluster_offset bsi_small 3 = 2 * 512 + (3 - 2) * (512 * 1)
   \<and> readCluster fd_zero 3 (replicate 512 7) bsi_small =
       (True, replicate 512 0, fd_zero\<lparr>f_pos := 2048\<rparr>)
   \<and> readCluster_offset bsi_huge 65538 = 4294968320
   \<and> f_maxbytes fd_vfat = 4294967295
   \<and> readCluster fd_vfat 65538 [7, 7] bsi_huge = (False, [7, 7], fd_vfat)"
proof -
  have c: "(2 :: 32 word) \<le> 3" by simp
  have fit: "(unat (3 :: 32 word) - 2) * unat (sectorsPerCluster bsi_small)
               + unat (rootCluster bsi_small) < 2 ^ 32"
    by (simp add: bsi_small_def)
  note small = readCluster_access
    [where fd = fd_zero and c = 3 and buf = "replicate 512 7" and bsi = bsi_small and t = 0]
  have o3: "readCluster_offset bsi_small 3 = 2 * 512 + (3 - 2) * (512 * 1)"
    using small c fit by (simp add: bsi_small_def)
  have r3: "readCluster fd_zero 3 (replicate 512 7) bsi_small =
       (True, replicate 512 0, fd_zero\<lparr>f_pos := 2048\<rparr>)"
    using small [THEN conjunct1] o3
    by (simp add: fd_zero_def bsi_small_def cluster_bytes_def Let_def)
  have oh: "readCluster_offset bsi_huge 65538 = 4294968320"
    by (simp add: readCluster_offset_def readCluster_sector_def bsi_huge_def)
  have mx: "f_maxbytes fd_vfat = 4294967295" by (simp add: fd_vfat_def)
  have rh: "readCluster fd_vfat 65538 [7, 7] bsi_huge = (False, [7, 7], fd_vfat)"
    using readCluster_access
      [where fd = fd_vfat and c = 65538 and buf = "[7, 7]" and bsi = bsi_huge and t = 0,
        THEN conjunct1] oh mx
    by simp
  from c fit o3 r3 oh mx rh show ?thesis by blast
qed

text \<open>
  C1 as stated fails: with 32 reserved sectors and two FATs of 8 sectors the specified
  data region starts at byte 24576, whereas cluster 2 is read at byte 1024; clusters 1
  and 102 of a 100-cluster volume are read successfully instead of being refused; and on
  the geometry with \<open>2\<^sup>2\<^sup>5 + 1\<close> clusters of 128 sectors the valid cluster
  \<open>2\<^sup>2\<^sup>5 + 2\<close> is read at byte 1024 like cluster 2, because its sector number
  overflows 32 bits.
\<close>

theorem readCluster_counterexample:
  "spec_clusterToOffset vg_small 2 = Inr 24576
   \<and> readCluster_offset bsi_small 2 = 1024
   \<and> spec_clusterToOffset vg_small 1 = Inl InvalidCluster
   \<and> spec_clusterToOffset vg_small 102 = Inl InvalidCluster
   \<and> fst (readCluster fd_zero 1 (replicate 512 0) bsi_small)
   \<and> fst (readCluster fd_zero 102 (replicate 512 0) bsi_small)
   \<and> valid_cluster bsi_huge 33554434
   \<and> readCluster_offset bsi_huge 2 = 1024
   \<and> readCluster_offset bsi_huge 33554434 = 1024"
  by (simp add: spec_clusterToOffset_def spec_dataRegionStart_def vg_small_def
      readCluster_def readCluster_offset_def readCluster_sector_def bsi_small_def
      sys_lseek_def sys_read_def fd_zero_def cluster_bytes_def Let_def
      valid_cluster_def bsi_huge_def)

lemma readCluster_offset_valid:
  assumes spc: "sectorsPerCluster bsi \<noteq> 0"
    and fit: "unat (totalClusters bsi) * unat (sectorsPerCluster bsi) + unat (rootCluster bsi) \<le> 2 ^ 32"
    and v: "valid_cluster bsi c"
  shows "readCluster_offset bsi c =
           int (((unat c - 2) * unat (sectorsPerCluster bsi) + unat (rootCluster bsi))
                * unat (bytesPerSector bsi))"
proof -
  let ?s = "unat (sectorsPerCluster bsi)" and ?t = "unat (totalClusters bsi)"
  have s0: "0 < ?s" using spc by (simp add: unat_gt_0)
  have "(2 :: 32 word) \<le> c" using v by (simp add: valid_cluster_def word_le_nat_alt)
  then have u: "unat (c - 2) = unat c - 2" by (simp add: unat_sub)
  have lt: "unat c - 2 < ?t" using v unfolding valid_cluster_def by linarith
  have "(unat c - 2) * ?s < ?t * ?s" using lt s0 by simp
  then have "(unat c - 2) * ?s + unat (rootCluster bsi) < 2 ^ 32" using fit by linarith
  then show ?thesis using u by (simp add: readCluster_offset_nowrap)
qed

text \<open>
  C7, as the code has it. When \<open>bytesPerSector\<close> and \<open>sectorsPerCluster\<close> are not zero
  and the sector numbers of all valid clusters fit into 32 bits
  (\<open>totalClusters * sectorsPerCluster + rootCluster \<le> 2\<^sup>3\<^sup>2\<close>), the offset computed by
  \<^const>\<open>readCluster\<close> is strictly increasing, hence injective, over the valid clusters.
\<close>

theorem readCluster_offset_strict_mono:
  assumes bps: "bytesPerSector bsi \<noteq> 0" and spc: "sectorsPerCluster bsi \<noteq> 0"
    and fit: "unat (totalClusters bsi) * unat (sectorsPerCluster bsi) + unat (rootCluster bsi) \<le> 2 ^ 32"
    and v1: "valid_cluster bsi c1" and v2: "valid_cluster bsi c2"
  shows "(c1 < c2 \<longrightarrow> readCluster_offset bsi c1 < readCluster_offset bsi c2)
       \<and> (readCluster_offset bsi c1 = readCluster_offset bsi c2 \<longrightarrow> c1 = c2)"
proof -
  let ?s = "unat (sectorsPerCluster bsi)" and ?b = "unat (bytesPerSector bsi)"
  let ?r = "unat (rootCluster bsi)"
  have s0: "0 < ?s" using spc by (simp add: unat_gt_0)
  have b0: "0 < ?b" using bps by (simp add: unat_gt_0)
  have mono: "readCluster_offset bsi a < readCluster_offset bsi b"
    if va: "valid_cluster bsi a" and vb: "valid_cluster bsi b" and lt: "a < b" for a b
  proof -
    have "unat a < unat b" using lt by (simp add: word_less_nat_alt)
    moreover have "2 \<le> unat a" using va by (simp add: valid_cluster_def)
    ultimately have "unat a - 2 < unat b - 2" by simp
    then have "(unat a - 2) * ?s < (unat b - 2) * ?s" using s0 by simp
    then have "(unat a - 2) * ?s + ?r < (unat b - 2) * ?s + ?r" by simp
    then have "((unat a - 2) * ?s + ?r) * ?b < ((unat b - 2) * ?s + ?r) * ?b"
      using b0 by simp
    then show ?thesis
      by (simp only: readCluster_offset_valid [OF spc fit va]
          readCluster_offset_valid [OF spc fit vb] of_nat_less_iff)
  qed
  have inj: "c1 = c2" if eq: "readCluster_offset bsi c1 = readCluster_offset bsi c2"
  proof (rule ccontr)
    assume "c1 \<noteq> c2"
    then consider "c1 < c2" | "c2 < c1" by (meson linorder_neqE)
    then show False
    proof cases
      case 1
      from mono [OF v1 v2 1] eq show False by simp
    next
      case 2
      from mono [OF v2 v1 2] eq show False by simp
    qed
  qed
  from mono [OF v1 v2] inj show ?thesis by blast
qed

theorem readCluster_offset_strict_mono_witness:
  "bytesPerSector bsi_small \<noteq> 0 \<and> sectorsPerCluster bsi_small \<noteq> 0
   \<and> valid_cluster bsi_small 2 \<and> valid_cluster bsi_small 101 \<and> (2 :: 32 word) < 101
   \<and> readCluster_offset bsi_small 2 < readCluster_offset bsi_small 101"
proof -
  have a: "bytesPerSector bsi_small \<noteq> 0" "sectorsPerCluster bsi_small \<noteq> 0"
    by (simp_all add: bsi_small_def)
  have f: "unat (totalClusters bsi_small) * unat (sectorsPerCluster bsi_small)
             + unat (rootCluster bsi_small) \<le> 2 ^ 32"
    by (simp add: bsi_small_def)
  have v: "valid_cluster bsi_small 2" "valid_cluster bsi_small 101"
    by (simp_all add: valid_cluster_def bsi_small_def)
  have lt: "(2 :: 32 word) < 101" by simp
  from readCluster_offset_strict_mono [OF a f v] lt a v show ?thesis by blast
qed

text \<open>
  C7 as stated fails: the sector number is computed in 32 bits, so on a geometry with
  \<open>2\<^sup>2\<^sup>5 + 1\<close> clusters of 128 sectors the valid clusters 2 and \<open>2\<^sup>2\<^sup>5 + 2\<close> are
  both read at byte 1024; and nothing keeps the geometry fields from being zero, in which
  case the valid clusters 2 and 3 of the 100-cluster volume share one offset.
\<close>

theorem readCluster_offset_counterexample:
  "valid_cluster bsi_huge 2 \<and> valid_cluster bsi_huge 33554434 \<and> (2 :: 32 word) < 33554434
   \<and> readCluster_offset bsi_huge 2 = 1024 \<and> readCluster_offset bsi_huge 33554434 = 1024
   \<and> valid_cluster bsi_small 2 \<and> valid_cluster bsi_small 3
   \<and> readCluster_offset (bsi_small\<lparr>sectorsPerCluster := 0\<rparr>) 2 = 1024
   \<and> readCluster_offset (bsi_small\<lparr>sectorsPerCluster := 0\<rparr>) 3 = 1024
   \<and> readCluster_offset (bsi_small\<lparr>bytesPerSector := 0\<rparr>) 2 = 0
   \<and> readCluster_offset (bsi_small\<lparr>bytesPerSector := 0\<rparr>) 3 = 0"
  by (simp add: valid_cluster_def bsi_huge_def bsi_small_def readCluster_offset_def
      readCluster_sector_def)

section \<open>The image and the geometry during a run of main\<close>

lemma sys_lseek_file:
  "f_bytes (snd (sys_lseek fd off)) = f_bytes fd \<and> f_flags (snd (sys_lseek fd off)) = f_flags fd"
  by (simp add: sys_lseek_def)

lemma sys_read_file:
  "f_bytes (snd (snd (sys_read fd buf n))) = f_bytes fd
   \<and> f_flags (snd (snd (sys_read fd buf n))) = f_flags fd"
  by (simp add: sys_read_def Let_def)

lemma sys_write_flags: "f_flags (snd (sys_write fd buf n)) = f_flags fd"
  by (simp add: sys_write_def Let_def)

lemma sys_write_rdonly:
  "f_flags fd = O_RDONLY \<Longrightarrow> sys_write fd buf n = (- 1, fd)"
  by (simp add: sys_write_def)

lemma readCluster_file:
  "f_bytes (snd (snd (readCluster fd c buf bsi))) = f_bytes fd
   \<and> f_flags (snd (snd (readCluster fd c buf bsi))) = f_flags fd"
proof -
  obtain r fd1 where l: "sys_lseek fd (readCluster_offset bsi c) = (r, fd1)"
    by (cases "sys_lseek fd (readCluster_offset bsi c)")
  obtain n b' fd2 where rd: "sys_read fd1 buf (cluster_bytes bsi) = (n, b', fd2)"
    by (cases "sys_read fd1 buf (cluster_bytes bsi)")
  have 1: "f_bytes fd1 = f_bytes fd \<and> f_flags fd1 = f_flags fd"
    using sys_lseek_file [of fd "readCluster_offset bsi c"] l by simp
  have 2: "f_bytes fd2 = f_bytes fd1 \<and> f_flags fd2 = f_flags fd1"
    using sys_read_file [of fd1 buf "cluster_bytes bsi"] rd by simp
  show ?thesis using 1 2 by (simp add: readCluster_def l rd)
qed

lemma listDirectory_file:
  "f_bytes (fst (listDirectory pf al fd context bsi)) = f_bytes fd
   \<and> f_flags (fst (listDirectory pf al fd context bsi)) = f_flags fd"
proof (cases "malloc al (cluster_bytes bsi)")
  case None
  then show ?thesis by (simp add: listDirectory_def)
next
  case (Some b0)
  obtain ok buffer fd' where rc: "readCluster fd (currentCluster context) b0 bsi = (ok, buffer, fd')"
    by (cases "readCluster fd (currentCluster context) b0 bsi")
  have "f_bytes fd' = f_bytes fd \<and> f_flags fd' = f_flags fd"
    using readCluster_file [of fd "currentCluster context" b0 bsi] rc by simp
  then show ?thesis
    by (simp add: listDirectory_def Some rc split: prod.splits)
qed

lemma createDirectory_rdonly:
  assumes ro: "f_flags fd = O_RDONLY"
  shows "f_bytes (fst (createDirectory pf al fd dirName context bsi)) = f_bytes fd
   \<and> f_flags (fst (createDirectory pf al fd dirName context bsi)) = O_RDONLY"
proof (cases "malloc al (cluster_bytes bsi)")
  case None
  then show ?thesis using ro by (simp add: createDirectory_def)
next
  case (Some b0)
  obtain ok buffer fd1 where rc: "readCluster fd (currentCluster context) b0 bsi = (ok, buffer, fd1)"
    by (cases "readCluster fd (currentCluster context) b0 bsi")
  have 1: "f_bytes fd1 = f_bytes fd \<and> f_flags fd1 = O_RDONLY"
    using readCluster_file [of fd "currentCluster context" b0 bsi] rc ro by simp
  obtain r fd2 where l: "sys_lseek fd1 (createDirectory_offset context bsi) = (r, fd2)"
    by (cases "sys_lseek fd1 (createDirectory_offset context bsi)")
  have 2: "f_bytes fd2 = f_bytes fd \<and> f_flags fd2 = O_RDONLY"
    using sys_lseek_file [of fd1 "createDirectory_offset context bsi"] l 1 by simp
  then have w: "sys_write fd2 b n = (- 1, fd2)" for b n
    by (simp add: sys_write_rdonly)
  show ?thesis
    using 1 2 by (simp add: createDirectory_def Some rc l w split: prod.splits)
qed

lemma command_step_inv:
  assumes "session_inv img bsi s"
  shows "session_inv img bsi (command_step env n s command)"
proof -
  have ro: "f_flags (s_fd s) = O_RDONLY" and im: "f_bytes (s_fd s) = img"
    and g: "s_bsi s = bsi"
    and cs: "map call_geometry (s_calls s) = replicate (length (s_calls s)) bsi"
    using assms by (simp_all add: session_inv_def)
  let ?pf = "env_platform env" and ?al = "env_malloc env n"
  obtain fdl outl fl where
    ls: "listDirectory ?pf ?al (s_fd s) (s_context s) bsi = (fdl, outl, fl)"
    by (cases "listDirectory ?pf ?al (s_fd s) (s_context s) bsi")
  have lsf: "f_bytes fdl = img \<and> f_flags fdl = O_RDONLY"
    using listDirectory_file [of ?pf ?al "s_fd s" "s_context s" bsi] ls ro im by simp
  let ?d = "case sscanf_s (drop 6 (c_str command)) 255 of
              Some name \<Rightarrow> name | None \<Rightarrow> env_dirName env n"
  obtain fdc outc where
    mk: "createDirectory ?pf ?al (s_fd s) ?d (s_context s) bsi = (fdc, outc)"
    by (cases "createDirectory ?pf ?al (s_fd s) ?d (s_context s) bsi")
  have mkf: "f_bytes fdc = img \<and> f_flags fdc = O_RDONLY"
    using createDirectory_rdonly [OF ro, of ?pf ?al ?d "s_context s" bsi] mk im by simp
  show ?thesis
    using lsf mkf im ro cs
    by (simp add: session_inv_def command_step_def Let_def g ls mk call_geometry_def
        replicate_append_same split: prod.splits)
qed

lemma command_loop_inv:
  "session_inv img bsi s \<Longrightarrow> session_inv img bsi (command_loop env n s stdin)"
proof (induction stdin arbitrary: s n)
  case Nil
  then show ?case by (simp add: session_inv_def)
next
  case (Cons input rest)
  let ?s1 = "s\<lparr>s_out := s_out s @ [Prompt (imageName (s_context s)) (path (s_context s))]\<rparr>"
  let ?c = "takeWhile (\<lambda>b. b \<noteq> 0x0A) (c_str input)"
  have i1: "session_inv img bsi ?s1" using Cons.prems by (simp add: session_inv_def)
  have i2: "session_inv img bsi (command_step env n ?s1 ?c)"
    using i1 by (rule command_step_inv)
  show ?case
    using i1 i2 Cons.IH [OF i2] by (simp add: Let_def)
qed

lemma main_inv:
  assumes "snd (snd (main env bsi argv files stdin)) = Some s"
  shows "length argv = 2 \<and> files (c_str (argv ! 1)) = Some (f_bytes (s_fd s))
         \<and> session_inv (f_bytes (s_fd s)) bsi s"
proof (cases "length argv = 2")
  case False
  then show ?thesis using assms by (simp add: main_def)
next
  case True
  show ?thesis
  proof (cases "files (c_str (argv ! 1))")
    case None
    then show ?thesis using assms True by (simp add: main_def)
  next
    case (Some img)
    let ?s0 = "\<lparr>s_fd = \<lparr>f_bytes = img, f_flags = O_RDONLY, f_pos = 0,
                         f_maxbytes = env_maxbytes env\<rparr>,
                s_context = \<lparr>currentCluster = 2, path = bytes_of ''/'',
                              imageName = take 255 (c_str (argv ! 1))\<rparr>,
                s_bsi = bsi, s_out = [], s_calls = [], s_fault = None\<rparr>"
    have "session_inv img bsi ?s0" by (simp add: session_inv_def)
    then have inv: "session_inv img bsi (command_loop env 0 ?s0 stdin)"
      by (rule command_loop_inv)
    have "s = command_loop env 0 ?s0 stdin"
      using assms True Some by (simp add: main_def Let_def)
    then show ?thesis using inv True Some by (simp add: session_inv_def)
  qed
qed

text \<open>
  C8. For every run of \<^const>\<open>main\<close> (every platform, allocator, argument vector, file
  system and input), the bytes of the image at the end of the run are the bytes the file
  had when it was opened, and the descriptor of the command loop is open
  \<^const>\<open>O_RDONLY\<close>: the \<^verbatim>\<open>write\<close> of \<^const>\<open>createDirectory\<close> fails and stores
  nothing. Since the input is arbitrary, this holds after every command of a session.
\<close>

theorem main_image_unchanged:
  "final_image (main env bsi argv files stdin) =
     (if length argv = 2 then files (c_str (argv ! 1)) else None)
   \<and> final_mode (main env bsi argv files stdin) =
     (if length argv = 2 \<and> files (c_str (argv ! 1)) \<noteq> None then Some O_RDONLY else None)"
proof (cases "snd (snd (main env bsi argv files stdin))")
  case None
  then have "length argv \<noteq> 2 \<or> files (c_str (argv ! 1)) = None"
    by (auto simp add: main_def Let_def split: if_splits option.splits)
  then show ?thesis using None by (auto simp add: final_image_def final_mode_def)
next
  case (Some s)
  from main_inv [OF Some] show ?thesis
    by (simp add: final_image_def final_mode_def Some session_inv_def)
qed

text \<open>
  C9. \<^verbatim>\<open>BootSectorInfo bsi;\<close> of \<^const>\<open>main\<close> is never assigned: whatever the image
  holds and whatever commands are entered (\<^verbatim>\<open>info\<close> included, which fills a record
  of its own), every call of \<^const>\<open>listDirectory\<close> and \<^const>\<open>createDirectory\<close>
  receives the indeterminate value the variable started with, and the variable still
  holds it at the end.
\<close>

theorem main_geometry_indeterminate:
  "map call_geometry (session_calls (main env bsi argv files stdin)) =
     replicate (length (session_calls (main env bsi argv files stdin))) bsi
   \<and> final_geometry (main env bsi argv files stdin) =
     (if length argv = 2 \<and> files (c_str (argv ! 1)) \<noteq> None then Some bsi else None)"
proof (cases "snd (snd (main env bsi argv files stdin))")
  case None
  then have "length argv \<noteq> 2 \<or> files (c_str (argv ! 1)) = None"
    by (auto simp add: main_def Let_def split: if_splits option.splits)
  then show ?thesis using None by (auto simp add: session_calls_def final_geometry_def)
next
  case (Some s)
  from main_inv [OF Some] show ?thesis
    by (simp add: session_calls_def final_geometry_def Some session_inv_def)
qed

text \<open>
  A run in which both operations are called: \<^verbatim>\<open>info\<close>, \<^verbatim>\<open>ls\<close> and
  \<^verbatim>\<open>mkdir NEWDIR\<close> on the zero image. Both calls receive the value \<open>bsi\<close> started
  with, although \<^verbatim>\<open>info\<close> ran first, and the image is as it was.
\<close>

lemma main_calls_example:
  "session_calls (main env_zero bsi64 [bytes_of ''./filesys'', bytes_of ''img''] files_img
      [bytes_of ''info'' @ [0x0A], bytes_of ''ls'' @ [0x0A], bytes_of ''mkdir NEWDIR'' @ [0x0A]]) =
     [Call_listDirectory bsi64, Call_createDirectory bsi64]
   \<and> final_image (main env_zero bsi64 [bytes_of ''./filesys'', bytes_of ''img''] files_img
      [bytes_of ''info'' @ [0x0A], bytes_of ''ls'' @ [0x0A], bytes_of ''mkdir NEWDIR'' @ [0x0A]]) =
     Some (replicate 256 0)"
  by code_simp

section \<open>The chain walker of the specification\<close>

lemma fat_chain_deterministic:
  "fat_chain fat (c # xs) \<Longrightarrow> fat_chain fat (c # ys) \<Longrightarrow> xs = ys"
proof (induction xs arbitrary: c ys)
  case Nil
  then show ?case by (cases ys) auto
next
  case (Cons x xs)
  then show ?case by (cases ys) auto
qed

lemma fat_chain_suffix:
  "fat_chain fat (xs @ y # ys) \<Longrightarrow> fat_chain fat (y # ys)"
proof (induction xs)
  case Nil
  then show ?case by simp
next
  case (Cons x xs)
  then show ?case by (cases xs) auto
qed

lemma fat_chain_distinct: "fat_chain fat cs \<Longrightarrow> distinct cs"
proof (induction cs)
  case Nil
  then show ?case by simp
next
  case (Cons c rest)
  have rest: "distinct rest"
  proof (cases rest)
    case Nil
    then show ?thesis by simp
  next
    case (Cons d ds)
    then show ?thesis using Cons.IH Cons.prems by simp
  qed
  have "c \<notin> set rest"
  proof
    assume "c \<in> set rest"
    then obtain pre suf where split: "rest = pre @ c # suf"
      by (auto simp add: in_set_conv_decomp)
    have "fat_chain fat ((c # pre) @ c # suf)" using Cons.prems split by simp
    then have "fat_chain fat (c # suf)" by (rule fat_chain_suffix)
    with Cons.prems have "rest = suf" by (rule fat_chain_deterministic)
    with split show False by simp
  qed
  with rest show ?case by simp
qed

lemma collectChain_from_chain:
  "fat_chain fat (c # rest) \<Longrightarrow> clusters_valid tot (c # rest)
   \<Longrightarrow> set visited \<inter> set (c # rest) = {}
   \<Longrightarrow> collectChain_from tot fat visited c = Inr (visited @ c # rest)"
proof (induction rest arbitrary: visited c)
  case Nil
  then show ?case
    by (subst collectChain_from.simps) (simp add: clusters_valid_def)
next
  case (Cons d ds)
  have link: "nextCluster fat c = Next d" and tl: "fat_chain fat (d # ds)"
    using Cons.prems(1) by simp_all
  have "distinct (c # d # ds)" using Cons.prems(1) by (rule fat_chain_distinct)
  then have new: "c \<notin> set (d # ds)" by simp
  have disj: "set (visited @ [c]) \<inter> set (d # ds) = {}"
    using Cons.prems(3) new by auto
  have v: "clusters_valid tot (d # ds)" using Cons.prems(2) by (simp add: clusters_valid_def)
  have "collectChain_from tot fat (visited @ [c]) d = Inr ((visited @ [c]) @ d # ds)"
    using tl v disj by (rule Cons.IH)
  moreover have "c \<notin> set visited" using Cons.prems(3) by auto
  moreover have "\<not> (c < 2 \<or> tot + 2 \<le> c)"
    using Cons.prems(2) by (simp add: clusters_valid_def)
  ultimately show ?case
    by (subst collectChain_from.simps) (simp add: link)
qed

lemma collectChain_from_cyclic:
  "fat_walk fat (c # rest) \<Longrightarrow> clusters_valid tot (c # rest) \<Longrightarrow> distinct visited
   \<Longrightarrow> \<not> distinct (visited @ c # rest)
   \<Longrightarrow> collectChain_from tot fat visited c = Inl CyclicChain"
proof (induction rest arbitrary: visited c)
  case Nil
  then have "c \<in> set visited" by auto
  then show ?case by (subst collectChain_from.simps) simp
next
  case (Cons d ds)
  show ?case
  proof (cases "c \<in> set visited")
    case True
    then show ?thesis by (subst collectChain_from.simps) simp
  next
    case False
    have link: "nextCluster fat c = Next d" and tl: "fat_walk fat (d # ds)"
      using Cons.prems(1) by simp_all
    have v: "clusters_valid tot (d # ds)" using Cons.prems(2) by (simp add: clusters_valid_def)
    have d: "distinct (visited @ [c])" using Cons.prems(3) False by simp
    have nd: "\<not> distinct ((visited @ [c]) @ d # ds)" using Cons.prems(4) by simp
    have "collectChain_from tot fat (visited @ [c]) d = Inl CyclicChain"
      using tl v d nd by (rule Cons.IH)
    moreover have "\<not> (c < 2 \<or> tot + 2 \<le> c)"
      using Cons.prems(2) by (simp add: clusters_valid_def)
    ultimately show ?thesis
      using False by (subst collectChain_from.simps) (simp add: link)
  qed
qed

lemma collectChain_from_result:
  "collectChain_from tot fat visited c = Inr cs \<Longrightarrow> distinct visited
   \<Longrightarrow> clusters_valid tot visited
   \<Longrightarrow> (\<exists>rest. cs = visited @ c # rest \<and> fat_chain fat (c # rest))
       \<and> distinct cs \<and> clusters_valid tot cs"
proof (induction tot fat visited c rule: collectChain_from.induct)
  case (1 tot fat visited c)
  have new: "c \<notin> set visited" and ok: "\<not> (c < 2 \<or> tot + 2 \<le> c)"
    using "1.prems"(1) by (subst (asm) collectChain_from.simps; simp split: if_splits)+
  show ?case
  proof (cases "nextCluster fat c")
    case (Next d)
    have run: "collectChain_from tot fat (visited @ [c]) d = Inr cs"
      using "1.prems"(1) new ok Next by (subst (asm) collectChain_from.simps) simp
    have d: "distinct (visited @ [c])" using "1.prems"(2) new by simp
    have v: "clusters_valid tot (visited @ [c])"
      using "1.prems"(3) ok by (simp add: clusters_valid_def)
    from "1.IH" [OF new ok Next run d v]
    obtain rest where r: "cs = (visited @ [c]) @ d # rest" "fat_chain fat (d # rest)"
      and dv: "distinct cs" "clusters_valid tot cs" by blast
    have "cs = visited @ c # (d # rest) \<and> fat_chain fat (c # d # rest)"
      using r Next by simp
    then show ?thesis using dv by blast
  next
    case EndOfChain
    have "cs = visited @ [c]"
      using "1.prems"(1) new ok EndOfChain by (subst (asm) collectChain_from.simps) simp
    then show ?thesis
      using EndOfChain "1.prems"(2,3) new ok by (simp add: clusters_valid_def)
  next
    case Free
    then show ?thesis
      using "1.prems"(1) new ok by (subst (asm) collectChain_from.simps) simp
  next
    case Bad
    then show ?thesis
      using "1.prems"(1) new ok by (subst (asm) collectChain_from.simps) simp
  qed
qed

lemma valid_distinct_length:
  assumes "distinct cs" and "clusters_valid tot cs"
  shows "length cs \<le> tot"
proof -
  have "set cs \<subseteq> {2..<tot + 2}"
    using assms(2) by (auto simp add: clusters_valid_def list_all_iff)
  then have "card (set cs) \<le> card {2..<tot + 2}"
    by (intro card_mono) simp_all
  then show ?thesis using assms(1) by (simp add: distinct_card)
qed

text \<open>
  C6, for \<^const>\<open>collectChain\<close> as the specification describes it (the source has no
  chain walker). If the clusters \<open>cs\<close> form a chain of the table that ends with an
  end-of-chain entry and all lie in \<open>[2, totalClusters + 2)\<close>, then \<open>collectChain\<close> from
  the first of them yields exactly \<open>cs\<close>, so as many clusters as the chain is long. If
  following the table from the start cluster through valid clusters reaches a cluster a
  second time, the result is \<open>CyclicChain\<close>. Whatever list is yielded is a chain of the
  table beginning at the start cluster, with at most \<open>totalClusters\<close> members.
  \<^const>\<open>collectChain_from\<close> is a total function: its recursion ends because every step
  adds a valid cluster not yet visited.
\<close>

theorem collectChain_chain:
  "(fat_chain fat cs \<and> clusters_valid tot cs \<longrightarrow> collectChain tot fat (hd cs) = Inr cs)
   \<and> (fat_walk fat cs \<and> cs \<noteq> [] \<and> clusters_valid tot cs \<and> \<not> distinct cs
        \<longrightarrow> collectChain tot fat (hd cs) = Inl CyclicChain)
   \<and> (collectChain tot fat startCluster = Inr cs
        \<longrightarrow> fat_chain fat cs \<and> hd cs = startCluster \<and> length cs \<le> tot)"
proof (intro conjI impI)
  assume h: "fat_chain fat cs \<and> clusters_valid tot cs"
  then obtain c rest where cs: "cs = c # rest" by (cases cs) auto
  have "collectChain_from tot fat [] c = Inr ([] @ c # rest)"
    using h collectChain_from_chain [of fat c rest tot "[]"] unfolding cs by simp
  then show "collectChain tot fat (hd cs) = Inr cs" by (simp add: collectChain_def cs)
next
  assume h: "fat_walk fat cs \<and> cs \<noteq> [] \<and> clusters_valid tot cs \<and> \<not> distinct cs"
  then obtain c rest where cs: "cs = c # rest" by (cases cs) auto
  have "collectChain_from tot fat [] c = Inl CyclicChain"
    using h collectChain_from_cyclic [of fat c rest tot "[]"] unfolding cs by simp
  then show "collectChain tot fat (hd cs) = Inl CyclicChain" by (simp add: collectChain_def cs)
next
  assume h: "collectChain tot fat startCluster = Inr cs"
  then have "collectChain_from tot fat [] startCluster = Inr cs" by (simp add: collectChain_def)
  from collectChain_from_result [OF this]
  obtain rest where r: "cs = startCluster # rest" "fat_chain fat (startCluster # rest)"
    and dv: "distinct cs" "clusters_valid tot cs" by (auto simp add: clusters_valid_def)
  show "fat_chain fat cs" using r by simp
  show "hd cs = startCluster" using r by simp
  show "length cs \<le> tot" using dv by (rule valid_distinct_length)
qed


theorem collectChain_chain_witness:
  "fat_chain fat_three [2, 3, 4] \<and> clusters_valid 4 [2, 3, 4]
   \<and> collectChain 4 fat_three 2 = Inr [2, 3, 4]
   \<and> fat_walk fat_loop [2, 3, 2] \<and> clusters_valid 4 [2, 3, 2] \<and> \<not> distinct [2, 3, 2 :: nat]
   \<and> collectChain 4 fat_loop 2 = Inl CyclicChain
   \<and> length [2, 3, 4 :: nat] \<le> 4"
proof -
  have c: "fat_chain fat_three [2, 3, 4]"
    by (simp add: fat_three_def nextCluster_def)
  have v: "clusters_valid 4 [2, 3, 4]" by (simp add: clusters_valid_def)
  have w: "fat_walk fat_loop [2, 3, 2]"
    by (simp add: fat_loop_def nextCluster_def)
  have v2: "clusters_valid 4 [2, 3, 2]" by (simp add: clusters_valid_def)
  have nd: "\<not> distinct [2, 3, 2 :: nat]" by simp
  note thm1 = collectChain_chain [of fat_three "[2, 3, 4]" 4 2]
  note thm2 = collectChain_chain [of fat_loop "[2, 3, 2]" 4 2]
  have "collectChain 4 fat_three (hd [2, 3, 4]) = Inr [2, 3, 4]"
    using thm1 [THEN conjunct1] c v by (rule mp [OF _ conjI])
  then have r1: "collectChain 4 fat_three 2 = Inr [2, 3, 4]"
    by (simp only: list.sel)
  have "collectChain 4 fat_loop (hd [2, 3, 2]) = Inl CyclicChain"
    using thm2 [THEN conjunct2, THEN conjunct1] w v2 nd by simp
  then have r2: "collectChain 4 fat_loop 2 = Inl CyclicChain"
    by (simp only: list.sel)
  have r3: "length [2, 3, 4 :: nat] \<le> 4"
    using thm1 [THEN conjunct2, THEN conjunct2] r1 by blast
  from c v r1 w v2 nd r2 r3 show ?thesis by blast
qed

section \<open>Claims about listDirectory\<close>

lemma char_value_zero: "char_value pf b = 0 \<longleftrightarrow> b = 0"
  by (simp add: char_value_def signed_eq_0_iff uint_0_iff)



lemma tombstone_example:
  "slot_free platform_unsigned (replicate 64 0xE5) 0
   \<and> \<not> slot_free platform_signed (replicate 64 0xE5) 0"
  by code_simp


lemma readCluster_buffer:
  assumes "f_flags fd \<noteq> O_WRONLY" and "readCluster_offset bsi c \<le> f_maxbytes fd"
  shows "readCluster fd c buffer0 bsi =
           (True, cluster_buffer fd c bsi buffer0,
            fd\<lparr>f_pos := nat (readCluster_offset bsi c)
                   + length (take (cluster_bytes bsi)
                       (drop (nat (readCluster_offset bsi c)) (f_bytes fd)))\<rparr>)"
  using readCluster_readable [OF assms, of buffer0]
  by (simp add: cluster_buffer_def Let_def)




text \<open>
  The loop of \<^const>\<open>listDirectory\<close> over records whose name field lies inside the
  buffer and whose first name byte is not \<^verbatim>\<open>0x00\<close>: it prints the names of those
  that do not compare equal to \<^verbatim>\<open>0xE5\<close>, in order, and goes on with the record
  behind them.
\<close>

lemma printf_name_inside:
  "entry_at i + 11 \<le> length buffer \<Longrightarrow> printf_name buffer i = Some (c_str (entry_name buffer i))"
  by (simp add: printf_name_def entry_name_def Let_def)

lemma listDirectory_loop_prefix:
  assumes "\<forall>r. i \<le> r \<and> r < j \<longrightarrow> entry_at r + 11 \<le> length buffer \<and> buffer ! entry_at r \<noteq> 0"
    and "i \<le> j" and "j \<le> i + k"
  shows "listDirectory_loop pf buffer i k =
           (map (\<lambda>r. Line (c_str (entry_name buffer r)))
              (filter (\<lambda>r. char_value pf (buffer ! entry_at r) \<noteq> 0xE5) [i..<j])
              @ fst (listDirectory_loop pf buffer j (i + k - j)),
            snd (listDirectory_loop pf buffer j (i + k - j)))"
  using assms
proof (induction k arbitrary: i)
  case 0
  then have "i = j" by simp
  then show ?case by simp
next
  case (Suc k)
  show ?case
  proof (cases "i = j")
    case True
    then show ?thesis by (simp del: listDirectory_loop.simps)
  next
    case False
    then have lt: "i < j" using Suc.prems by simp
    have inside: "entry_at i + 11 \<le> length buffer" and nz: "buffer ! entry_at i \<noteq> 0"
      using Suc.prems(1) lt by auto
    have inb: "\<not> length buffer \<le> entry_at i" using inside by simp
    have later: "\<forall>r. Suc i \<le> r \<and> r < j \<longrightarrow>
                   entry_at r + 11 \<le> length buffer \<and> buffer ! entry_at r \<noteq> 0"
      using Suc.prems(1) by simp
    have ih: "listDirectory_loop pf buffer (Suc i) k =
           (map (\<lambda>r. Line (c_str (entry_name buffer r)))
              (filter (\<lambda>r. char_value pf (buffer ! entry_at r) \<noteq> 0xE5) [Suc i..<j])
              @ fst (listDirectory_loop pf buffer j (Suc i + k - j)),
            snd (listDirectory_loop pf buffer j (Suc i + k - j)))"
      using later lt Suc.prems(3) by (intro Suc.IH) simp_all
    have up: "[i..<j] = i # [Suc i..<j]" using lt by (rule upt_conv_Cons)
    have step: "listDirectory_loop pf buffer i (Suc k) =
        (if char_value pf (buffer ! entry_at i) = 0xE5
         then listDirectory_loop pf buffer (Suc i) k
         else (Line (c_str (entry_name buffer i)) # fst (listDirectory_loop pf buffer (Suc i) k),
               snd (listDirectory_loop pf buffer (Suc i) k)))"
      using inb nz by (simp add: char_value_zero printf_name_inside [OF inside] split: prod.splits)
    show ?thesis
      unfolding step up by (simp add: ih)
  qed
qed


lemma listDirectory_loop_leave:
  "0 < k \<Longrightarrow> length buffer \<le> entry_at j
   \<Longrightarrow> listDirectory_loop pf buffer j k = ([], Some OutOfBoundsRead)"
  by (cases k) simp_all


lemma listDirectory_loop_overread:
  assumes "\<forall>r < j. entry_at r + 11 \<le> length buffer \<and> buffer ! entry_at r \<noteq> 0"
    and "j < k" and "length buffer \<le> entry_at j"
  shows "listDirectory_loop pf buffer 0 k =
           (map (\<lambda>r. Line (c_str (entry_name buffer r)))
              (filter (\<lambda>r. char_value pf (buffer ! entry_at r) \<noteq> 0xE5) [0..<j]),
            Some OutOfBoundsRead)"
proof -
  have "listDirectory_loop pf buffer j (0 + k - j) = ([], Some OutOfBoundsRead)"
    using assms(2,3) by (intro listDirectory_loop_leave) simp_all
  moreover have "listDirectory_loop pf buffer 0 k =
           (map (\<lambda>r. Line (c_str (entry_name buffer r)))
              (filter (\<lambda>r. char_value pf (buffer ! entry_at r) \<noteq> 0xE5) [0..<j])
              @ fst (listDirectory_loop pf buffer j (0 + k - j)),
            snd (listDirectory_loop pf buffer j (0 + k - j)))"
    using assms(1,2) by (intro listDirectory_loop_prefix) simp_all
  ultimately show ?thesis by simp
qed












lemma malloc_zero: "malloc alloc_zero n = Some (replicate n 0)"
  by (simp add: malloc_def alloc_zero_def map_replicate_const)


text \<open>
  The same directory where plain \<^verbatim>\<open>char\<close> is signed: the comparison with
  \<^verbatim>\<open>0xE5\<close> never holds, the record of the deleted file is printed with the others,
  and \<^const>\<open>createDirectory\<close> passes over it and fills the record of zero bytes.
\<close>

lemma signed_char_example:
  "snd (listDirectory platform_signed alloc_zero fd_dir ctx_root bsi256) =
     ([Line (bytes_of ''.''), Line (bytes_of ''..''), Line (bytes_of ''A       TXT''),
       Line ([0xE5] @ bytes_of ''LD     TXT''), Line (bytes_of ''SUB        '')], None)
   \<and> f_bytes (fst (createDirectory platform_signed alloc_zero fd_dir (bytes_of ''NEWDIR     '')
                     ctx_root bsi256)) =
     replicate 512 0 @ record40 ''A       TXT'' 0x20 0 @ deleted40 ''OLD     TXT''
       @ record40 ''SUB        '' 0x10 5 @ record40 ''NEWDIR     '' 0x10 2
       @ record40 ''Z       TXT'' 0x20 0 @ replicate 56 0"
  by code_simp



section \<open>Claims about createDirectory\<close>





lemma strncpy_prefix:
  "take (min n (length (c_str src))) (strncpy src n) = take n (c_str src)"
  by (simp add: strncpy_def min_def)






lemma createDirectory_loop_found:
  "createDirectory_loop pf dirName ctx buffer i k = (buffer', True)
   \<Longrightarrow> \<exists>j. i \<le> j \<and> j < i + k \<and> slot_free pf buffer j
         \<and> (\<forall>m. i \<le> m \<and> m < j \<longrightarrow> \<not> slot_free pf buffer m)
         \<and> buffer' = createDirectory_fill buffer j dirName ctx"
proof (induction k arbitrary: i)
  case 0
  then show ?case by simp
next
  case (Suc k)
  show ?case
  proof (cases "slot_free pf buffer i")
    case True
    then have "buffer' = createDirectory_fill buffer i dirName ctx"
      using Suc.prems by simp
    then show ?thesis using True by (intro exI [of _ i]) auto
  next
    case False
    then have "createDirectory_loop pf dirName ctx buffer (Suc i) k = (buffer', True)"
      using Suc.prems by simp
    from Suc.IH [OF this] obtain j where j: "Suc i \<le> j" "j < Suc i + k" "slot_free pf buffer j"
      "\<forall>m. Suc i \<le> m \<and> m < j \<longrightarrow> \<not> slot_free pf buffer m"
      "buffer' = createDirectory_fill buffer j dirName ctx" by blast
    have "\<forall>m. i \<le> m \<and> m < j \<longrightarrow> \<not> slot_free pf buffer m"
    proof (intro allI impI)
      fix m assume m: "i \<le> m \<and> m < j"
      show "\<not> slot_free pf buffer m"
      proof (cases "m = i")
        case True
        then show ?thesis using False by simp
      next
        case False
        then have "Suc i \<le> m \<and> m < j" using m by simp
        then show ?thesis using j(4) by blast
      qed
    qed
    then show ?thesis using j by (intro exI [of _ j]) simp
  qed
qed

lemma createDirectory_loop_full:
  "createDirectory_loop pf dirName ctx buffer i k = (buffer', False)
   \<Longrightarrow> buffer' = buffer \<and> (\<forall>m. i \<le> m \<and> m < i + k \<longrightarrow> \<not> slot_free pf buffer m)"
proof (induction k arbitrary: i)
  case 0
  then show ?case by auto
next
  case (Suc k)
  have nf: "\<not> slot_free pf buffer i" using Suc.prems by auto
  then have "createDirectory_loop pf dirName ctx buffer (Suc i) k = (buffer', False)"
    using Suc.prems by simp
  from Suc.IH [OF this] have ih: "buffer' = buffer"
    "\<forall>m. Suc i \<le> m \<and> m < Suc i + k \<longrightarrow> \<not> slot_free pf buffer m" by blast+
  have "\<not> slot_free pf buffer m" if "i \<le> m \<and> m < i + Suc k" for m
  proof (cases "m = i")
    case True
    then show ?thesis using nf by simp
  next
    case False
    then have "Suc i \<le> m \<and> m < Suc i + k" using that by simp
    then show ?thesis using ih(2) by blast
  qed
  then show ?case using ih(1) by blast
qed








lemma fd_dir_directory:
  "cluster_buffer fd_dir (currentCluster ctx_root) bsi256 (replicate 256 0) =
     record40 ''A       TXT'' 0x20 0 @ deleted40 ''OLD     TXT''
       @ record40 ''SUB        '' 0x10 5 @ replicate 40 0
       @ record40 ''Z       TXT'' 0x20 0 @ replicate 56 0"
  by code_simp


text \<open>
  The image after that call: the record of the deleted file has become the record of
  \<open>NEWDIR\<close>, with first cluster 2, the cluster of the directory it was created in; every
  other byte of the image is as before.
\<close>

lemma createDirectory_example:
  "f_bytes (fst (createDirectory platform_unsigned alloc_zero fd_dir (bytes_of ''NEWDIR     '')
                   ctx_root bsi256)) =
     replicate 512 0 @ record40 ''A       TXT'' 0x20 0 @ record40 ''NEWDIR     '' 0x10 2
       @ record40 ''SUB        '' 0x10 5 @ replicate 40 0
       @ record40 ''Z       TXT'' 0x20 0 @ replicate 56 0"
  by code_simp


section \<open>Claims about changeDirectory\<close>

lemma changeDirectory_loop_no_match:
  "(\<forall>j. i \<le> j \<and> j < i + k \<longrightarrow> \<not> strncmp_eq (entry_name buffer j) dirName 11)
   \<Longrightarrow> fst (changeDirectory_loop pf dirName buffer ctx found i k) = ctx"
proof (induction k arbitrary: i found)
  case 0
  then show ?case by simp
next
  case (Suc k)
  have here: "\<not> strncmp_eq (entry_name buffer i) dirName 11"
    using Suc.prems by simp
  have later: "\<forall>j. Suc i \<le> j \<and> j < Suc i + k \<longrightarrow> \<not> strncmp_eq (entry_name buffer j) dirName 11"
    using Suc.prems by simp
  have ih: "fst (changeDirectory_loop pf dirName buffer ctx f (Suc i) k) = ctx" for f
    using later by (rule Suc.IH)
  show ?case using here ih by simp
qed

lemma strncmp_eq_name:
  assumes "length name \<le> 11" and "length (c_str dirName) \<le> 11"
  shows "strncmp_eq name dirName 11 \<longleftrightarrow> c_str name = c_str dirName"
proof -
  have "length (c_str name) \<le> 11"
    using assms(1) length_takeWhile_le [of "\<lambda>b. b \<noteq> 0" name] by (simp add: c_str_def)
  then show ?thesis using assms(2) by (simp add: strncmp_eq_def)
qed

lemma c_str_dotdot: "c_str (bytes_of ''..'') = bytes_of ''..''"
  by (simp add: c_str_def bytes_of_def)

text \<open>
  What \<^const>\<open>changeDirectory\<close> does with the two dot names. With \<open>.\<close> it returns at
  once and leaves context and descriptor as they were. With \<open>..\<close>, when no record of the
  current cluster's buffer has the name \<open>..\<close> ended by a NUL byte (a space-padded \<open>..\<close>
  record has not), the current cluster and the path stay as they were.
\<close>

theorem changeDirectory_dots:
  "changeDirectory pf al fd (bytes_of ''.'') ctx bsi = (ctx, fd, [])
   \<and> (malloc al (cluster_bytes bsi) = Some buffer0 \<and> f_flags fd \<noteq> O_WRONLY
        \<and> readCluster_offset bsi (currentCluster ctx) \<le> f_maxbytes fd
        \<and> (\<forall>j < cluster_bytes bsi div sizeof_DirEntry.
              c_str (entry_name (cluster_buffer fd (currentCluster ctx) bsi buffer0) j)
                \<noteq> bytes_of ''..'')
        \<longrightarrow> fst (changeDirectory pf al fd (bytes_of ''..'') ctx bsi) = ctx)"
proof (intro conjI impI)
  show "changeDirectory pf al fd (bytes_of ''.'') ctx bsi = (ctx, fd, [])"
    by (simp add: changeDirectory_def strcmp_eq_def)
next
  let ?buffer = "cluster_buffer fd (currentCluster ctx) bsi buffer0"
  let ?n = "cluster_bytes bsi div sizeof_DirEntry"
  assume h: "malloc al (cluster_bytes bsi) = Some buffer0 \<and> f_flags fd \<noteq> O_WRONLY
        \<and> readCluster_offset bsi (currentCluster ctx) \<le> f_maxbytes fd
        \<and> (\<forall>j < ?n. c_str (entry_name ?buffer j) \<noteq> bytes_of ''..'')"
  have rc: "readCluster fd (currentCluster ctx) buffer0 bsi =
           (True, ?buffer,
            fd\<lparr>f_pos := nat (readCluster_offset bsi (currentCluster ctx))
                   + length (take (cluster_bytes bsi)
                       (drop (nat (readCluster_offset bsi (currentCluster ctx))) (f_bytes fd)))\<rparr>)"
    using h by (intro readCluster_buffer) simp_all
  have "\<not> strncmp_eq (entry_name ?buffer j) (bytes_of ''..'') 11" if "j < ?n" for j
  proof -
    have "length (entry_name ?buffer j) \<le> 11" by (simp add: entry_name_def)
    moreover have "length (c_str (bytes_of ''..'')) \<le> 11"
      unfolding c_str_dotdot by (simp add: bytes_of_def)
    ultimately have "strncmp_eq (entry_name ?buffer j) (bytes_of ''..'') 11
        \<longleftrightarrow> c_str (entry_name ?buffer j) = c_str (bytes_of ''..'')"
      by (rule strncmp_eq_name)
    then show ?thesis using h that by (simp add: c_str_dotdot)
  qed
  then have "\<forall>j. 0 \<le> j \<and> j < 0 + ?n \<longrightarrow> \<not> strncmp_eq (entry_name ?buffer j) (bytes_of ''..'') 11"
    by simp
  then have unchanged: "fst (changeDirectory_loop pf (bytes_of ''..'') ?buffer ctx False 0 ?n) = ctx"
    by (rule changeDirectory_loop_no_match)
  obtain ctx' found' where
    lp: "changeDirectory_loop pf (bytes_of ''..'') ?buffer ctx False 0 ?n = (ctx', found')"
    by (cases "changeDirectory_loop pf (bytes_of ''..'') ?buffer ctx False 0 ?n")
  have "ctx' = ctx" using unchanged lp by simp
  then show "fst (changeDirectory pf al fd (bytes_of ''..'') ctx bsi) = ctx"
    using h by (simp add: changeDirectory_def rc lp)
qed

theorem changeDirectory_dots_example:
  "malloc alloc_zero (cluster_bytes bsi128) = Some (replicate 128 0)
   \<and> f_flags fd_sub40 \<noteq> O_WRONLY
   \<and> readCluster_offset bsi128 (currentCluster ctx_three) \<le> f_maxbytes fd_sub40
   \<and> list_all (\<lambda>j. c_str (entry_name (cluster_buffer fd_sub40 (currentCluster ctx_three) bsi128
                                  (replicate 128 0)) j) \<noteq> bytes_of ''..'') [0, 1, 2]
   \<and> changeDirectory platform_unsigned alloc_zero fd_sub40 (bytes_of ''.'') ctx_three bsi128 =
       (ctx_three, fd_sub40, [])
   \<and> fst (changeDirectory platform_unsigned alloc_zero fd_sub40 (bytes_of ''..'') ctx_three bsi128)
       = ctx_three"
proof -
  let ?buffer = "cluster_buffer fd_sub40 (currentCluster ctx_three) bsi128 (replicate 128 0)"
  have m: "malloc alloc_zero (cluster_bytes bsi128) = Some (replicate 128 0)"
    by (simp add: malloc_zero cluster_bytes_def bsi128_def)
  have ro: "f_flags fd_sub40 \<noteq> O_WRONLY" by (simp add: fd_sub40_def)
  have lim: "readCluster_offset bsi128 (currentCluster ctx_three) \<le> f_maxbytes fd_sub40"
    by (simp add: readCluster_offset_def readCluster_sector_def bsi128_def ctx_three_def
        fd_sub40_def)
  have names: "list_all (\<lambda>j. c_str (entry_name ?buffer j) \<noteq> bytes_of ''..'') [0, 1, 2]"
    by code_simp
  have n: "cluster_bytes bsi128 div sizeof_DirEntry = 3"
    by (simp add: cluster_bytes_def bsi128_def sizeof_DirEntry_def)
  have all: "\<forall>j < cluster_bytes bsi128 div sizeof_DirEntry.
               c_str (entry_name ?buffer j) \<noteq> bytes_of ''..''"
  proof (intro allI impI)
    fix j assume "j < cluster_bytes bsi128 div sizeof_DirEntry"
    then have "j = 0 \<or> j = 1 \<or> j = 2" using n by auto
    then show "c_str (entry_name ?buffer j) \<noteq> bytes_of ''..''" using names by auto
  qed
  note inst = changeDirectory_dots
    [of platform_unsigned alloc_zero fd_sub40 ctx_three bsi128 "replicate 128 0"]
  have dot: "changeDirectory platform_unsigned alloc_zero fd_sub40 (bytes_of ''.'') ctx_three bsi128 =
       (ctx_three, fd_sub40, [])"
    using inst by (rule conjunct1)
  have dotdot: "fst (changeDirectory platform_unsigned alloc_zero fd_sub40 (bytes_of ''..'')
                      ctx_three bsi128) = ctx_three"
    using inst [THEN conjunct2] m ro lim all by blast
  from m ro lim names dot dotdot show ?thesis by blast
qed

text \<open>
  C5: \<^const>\<open>changeDirectory\<close> with \<open>..\<close> is to move to the parent cluster named by the
  first-cluster field of the current directory's \<open>..\<close> record, and with \<open>.\<close> to change
  nothing. The code only notes that it met the \<open>..\<close> record (line 82, with the comment
  that the parent directory logic is to be handled there). In the directory of cluster 3,
  whose \<open>..\<close> record names cluster 4, \<^const>\<open>changeDirectory\<close> with \<open>..\<close> leaves the
  current cluster at 3: with the records laid out as \<^verbatim>\<open>DirEntry\<close> declares them it
  finds the record and prints nothing, with 32-byte records it does not find it and
  reports the directory as not found.
\<close>

theorem changeDirectory_parent_not_entered:
  "entry_name (cluster_buffer fd_sub40 3 bsi128 (replicate 128 0)) 1 = bytes_of ''..         ''
   \<and> push_bit 16 (ucast (entry_firstClusterHigh (cluster_buffer fd_sub40 3 bsi128 (replicate 128 0)) 1))
       OR ucast (entry_firstClusterLow (cluster_buffer fd_sub40 3 bsi128 (replicate 128 0)) 1)
       = (4 :: 32 word)
   \<and> changeDirectory platform_unsigned alloc_zero fd_sub40 (bytes_of ''..'') ctx_three bsi128 =
       (ctx_three, fd_sub40\<lparr>f_pos := 512\<rparr>, [])
   \<and> changeDirectory platform_unsigned alloc_zero fd_sub32 (bytes_of ''..'') ctx_three bsi128 =
       (ctx_three, fd_sub32\<lparr>f_pos := 512\<rparr>, [Line (bytes_of ''Directory not found: ..'')])
   \<and> currentCluster ctx_three = 3"
  by code_simp

section \<open>Claims about printBootSectorInfo\<close>

lemma boot_small_length: "length boot_small = 512"
  by (simp add: boot_small_def)

lemma boot_small_fields:
  "boot_small ! 11 = 0x00" "boot_small ! 12 = 0x02" "boot_small ! 13 = 0x01"
  "boot_small ! 36 = 8" "boot_small ! 37 = 0" "boot_small ! 38 = 0" "boot_small ! 39 = 0"
  "boot_small ! 44 = 2" "boot_small ! 45 = 0" "boot_small ! 46 = 0" "boot_small ! 47 = 0"
  by (simp_all add: boot_small_def nth_append)

text \<open>
  C4: the total-clusters field is to be the clusters of the image less those taken by the
  reserved sectors and the FAT copies. \<^const>\<open>printBootSectorInfo\<close> prints
  \<open>imageSize / (sectorsPerCluster * bytesPerSector)\<close> under the label
  \<^verbatim>\<open>Total # of Clusters in Data Region\<close> and subtracts nothing: for the 100-cluster
  image with 32 reserved sectors and two FATs of 8 sectors it prints 100, where the data
  region has 52 clusters.
\<close>

theorem printBootSectorInfo_counts_whole_image:
  "printBootSectorInfo (Some image_small) =
     ([BootInfo \<lparr>bytesPerSector = 512, sectorsPerCluster = 1, rootCluster = 2,
                 totalClusters = 100, sectorsPerFAT = 8, sizeOfImage = 51200\<rparr>], None)
   \<and> spec_totalClusters vg_small = 52"
proof -
  have len: "length image_small = 51200"
    by (simp add: image_small_def boot_small_length)
  have boot: "take 512 image_small = boot_small"
    by (simp add: image_small_def boot_small_length)
  have code: "printBootSectorInfo (Some image_small) =
     ([BootInfo \<lparr>bytesPerSector = 512, sectorsPerCluster = 1, rootCluster = 2,
                 totalClusters = 100, sectorsPerFAT = 8, sizeOfImage = 51200\<rparr>], None)"
    by (simp add: printBootSectorInfo_def len boot boot_small_fields le16_def le32_def Let_def)
  have spec: "spec_totalClusters vg_small = 52"
    by (simp add: spec_totalClusters_def vg_small_def)
  from code spec show ?thesis by (rule conjI)
qed


end
